theory Spec2Isabelle
  imports Main "HOL-Library.Word" "HOL-Library.Sublist" "HOL-Library.Char_ord"
    "HOL-Library.List_Lexorder"
begin

section \<open>The file-sharing server of \<^verbatim>\<open>home-server\<close>\<close>

text \<open>
  The repository holds two variants of one Node.js HTTP server. The current one is the
  second document of \<^verbatim>\<open>src/public/client.js\<close> (lines 162-379, headed
  \<^verbatim>\<open>// server.js\<close>); an older one, without the delete route and with a
  fixed client page, is \<^verbatim>\<open>src/client.js\<close>. Both are embedded here:
  \<open>server\<close> is the current request listener, \<open>server_v1\<close> the older one.

  Conventions of the embedding.
  \<^item> A JavaScript string is a \<open>string\<close>: the list of the bytes of its UTF-8 encoding,
    which is how Node hands a path to the operating system. A file's contents are a
    list of 8-bit words.
  \<^item> The request listener becomes a function from the file system before the request to
    an \<open>outcome\<close>: the response that was sent together with the file system after the
    request, or the exception that left the listener, or one of its callbacks, uncaught;
    then no response is sent and the process ends. The callbacks of
    \<^verbatim>\<open>fs\<close> and \<^verbatim>\<open>formidable\<close> run in sequence, with no other request
    in between.
  \<^item> The library functions the source calls (\<^verbatim>\<open>decodeURIComponent\<close>,
    \<^verbatim>\<open>path.join\<close>, \<^verbatim>\<open>path.extname\<close>, \<^verbatim>\<open>fs.*\<close>) are
    modelled after ECMAScript, Node's POSIX \<^verbatim>\<open>path\<close> module and the Linux file
    system calls. What \<^verbatim>\<open>form.parse\<close> hands to its callback is part of the
    request: the multipart parser itself is not modelled.
  \<^item> \<^verbatim>\<open>__dirname\<close>, the directory of the server's script, is a parameter
    \<open>dirname\<close> of every handler. It is an absolute path, as is every path the source
    hands to \<^verbatim>\<open>fs\<close>, and the file system reads a path from its root.
  \<^item> The file system is one Linux file system on which the server may do everything:
    there are no permissions, no quota and no device errors. The errors that remain are
    those of the names: \<^verbatim>\<open>ENOENT\<close>, \<^verbatim>\<open>ENOTDIR\<close>,
    \<^verbatim>\<open>EISDIR\<close>, \<^verbatim>\<open>ENOTEMPTY\<close>, \<^verbatim>\<open>EINVAL\<close>,
    \<^verbatim>\<open>ENXIO\<close>, \<^verbatim>\<open>ENAMETOOLONG\<close> and \<^verbatim>\<open>EBUSY\<close>.
  \<^item> What Node throws before it reaches the file system or the socket is part of the
    model: \<^verbatim>\<open>path.join\<close> refuses an argument that is not a string, the
    functions of \<^verbatim>\<open>fs\<close> refuse a path with a NUL character, and
    \<^verbatim>\<open>writeHead\<close> refuses a header value with a character it cannot send.
  \<^item> A response is what the handler gave to \<^verbatim>\<open>writeHead\<close> and
    \<^verbatim>\<open>end\<close>: the status, the headers (those set with
    \<^verbatim>\<open>setHeader\<close> first) and the body. What Node leaves out when it writes
    them to the socket (the body of the answer to a HEAD request) is not modelled.
  \<^item> \<^verbatim>\<open>console.log\<close> output is left out.
\<close>

subsection \<open>String primitives\<close>

text \<open>\<^verbatim>\<open>s.startsWith(p)\<close>.\<close>

definition startsWith :: "string \<Rightarrow> string \<Rightarrow> bool" where
  "startsWith s p = (take (length p) s = p)"

text \<open>\<^verbatim>\<open>s.split(c)\<close> for a one-character separator: never an empty array.\<close>

fun split :: "char \<Rightarrow> string \<Rightarrow> string list" where
  "split c [] = [[]]"
| "split c (x # xs) =
     (let r = split c xs in if x = c then [] # r else (x # hd r) # tl r)"

text \<open>\<^verbatim>\<open>a.pop()\<close> on the array \<^verbatim>\<open>split\<close> returned, which has an element.\<close>

definition pop :: "string list \<Rightarrow> string" where
  "pop a = last a"

text \<open>\<^verbatim>\<open>a.join(sep)\<close>.\<close>

fun join_sep :: "string \<Rightarrow> string list \<Rightarrow> string" where
  "join_sep sep [] = []"
| "join_sep sep [s] = s"
| "join_sep sep (s # t # ss) = s @ sep @ join_sep sep (t # ss)"

text \<open>
  \<^verbatim>\<open>s.toLowerCase()\<close> on the letters A-Z. The source applies it to an extension
  that is then looked up in a table of ASCII keys without the letter k, so the letters
  outside ASCII that JavaScript would lower as well cannot make a key match.
\<close>

definition lower_char :: "char \<Rightarrow> char" where
  "lower_char c =
     (let n = (of_char c :: nat) in if 65 \<le> n \<and> n \<le> 90 then char_of (n + 32) else c)"

definition toLowerCase :: "string \<Rightarrow> string" where
  "toLowerCase s = map lower_char s"

subsection \<open>\<^verbatim>\<open>decodeURIComponent\<close>\<close>

text \<open>
  The exceptions the listener can end in: the \<^verbatim>\<open>URIError\<close> of
  \<^verbatim>\<open>decodeURIComponent\<close>, and the errors of Node named by their
  \<^verbatim>\<open>code\<close> (a \<^verbatim>\<open>TypeError\<close> each).
\<close>

datatype exception = URIError | ERR_INVALID_ARG_TYPE | ERR_INVALID_ARG_VALUE | ERR_INVALID_CHAR

definition hex_digit :: "char \<Rightarrow> nat option" where
  "hex_digit c =
     (let n = (of_char c :: nat) in
      if 48 \<le> n \<and> n \<le> 57 then Some (n - 48)
      else if 65 \<le> n \<and> n \<le> 70 then Some (n - 55)
      else if 97 \<le> n \<and> n \<le> 102 then Some (n - 87)
      else None)"

definition hex_octet :: "char \<Rightarrow> char \<Rightarrow> nat option" where
  "hex_octet h1 h2 =
     (case hex_digit h1 of
        None \<Rightarrow> None
      | Some a \<Rightarrow> (case hex_digit h2 of None \<Rightarrow> None | Some b \<Rightarrow> Some (16 * a + b)))"

text \<open>The number of leading 1 bits of an octet.\<close>

definition leading_ones :: "nat \<Rightarrow> nat" where
  "leading_ones b =
     (if b < 128 then 0 else if b < 192 then 1 else if b < 224 then 2
      else if b < 240 then 3 else if b < 248 then 4 else 5)"

definition continuation :: "nat \<Rightarrow> bool" where
  "continuation b = (128 \<le> b \<and> b \<le> 191)"

text \<open>The well-formed UTF-8 encodings of one code point beyond ASCII (Unicode, table 3-7).\<close>

fun valid_utf8 :: "nat list \<Rightarrow> bool" where
  "valid_utf8 [b1, b2] = (194 \<le> b1 \<and> b1 \<le> 223 \<and> continuation b2)"
| "valid_utf8 [b1, b2, b3] =
     (((b1 = 224 \<and> 160 \<le> b2 \<and> b2 \<le> 191)
       \<or> (225 \<le> b1 \<and> b1 \<le> 236 \<and> continuation b2)
       \<or> (b1 = 237 \<and> 128 \<le> b2 \<and> b2 \<le> 159)
       \<or> (238 \<le> b1 \<and> b1 \<le> 239 \<and> continuation b2))
      \<and> continuation b3)"
| "valid_utf8 [b1, b2, b3, b4] =
     (((b1 = 240 \<and> 144 \<le> b2 \<and> b2 \<le> 191)
       \<or> (241 \<le> b1 \<and> b1 \<le> 243 \<and> continuation b2)
       \<or> (b1 = 244 \<and> 128 \<le> b2 \<and> b2 \<le> 143))
      \<and> continuation b3 \<and> continuation b4)"
| "valid_utf8 _ = False"

text \<open>
  The loop of ECMAScript's \<^verbatim>\<open>Decode\<close> with an empty set of preserved escapes.
  \<open>decode j octs s\<close> reads \<open>s\<close> with \<open>j\<close> continuation escapes of a multi-byte
  sequence still to come and \<open>octs\<close> the octets of that sequence read so far; \<open>None\<close>
  is the \<^verbatim>\<open>URIError\<close>. An escape below 128 yields that character; a sequence of
  \<open>n\<close> escapes that is a well-formed encoding yields its code point, here its octets.
\<close>

fun decode :: "nat \<Rightarrow> nat list \<Rightarrow> string \<Rightarrow> string option" where
  "decode 0 octs [] = Some []"
| "decode (Suc j) octs [] = None"
| "decode 0 octs (c # h1 # h2 # rest) =
     (if c \<noteq> CHR ''%'' then
        (case decode 0 [] (h1 # h2 # rest) of None \<Rightarrow> None | Some r \<Rightarrow> Some (c # r))
      else
        (case hex_octet h1 h2 of
           None \<Rightarrow> None
         | Some b \<Rightarrow>
             (let n = leading_ones b in
              if n = 0 then
                (case decode 0 [] rest of None \<Rightarrow> None | Some r \<Rightarrow> Some (char_of b # r))
              else if n = 1 \<or> n > 4 then None
              else decode (n - 1) [b] rest)))"
| "decode 0 octs (c # cs) =
     (if c \<noteq> CHR ''%'' then
        (case decode 0 [] cs of None \<Rightarrow> None | Some r \<Rightarrow> Some (c # r))
      else None)"
| "decode (Suc j) octs (c # h1 # h2 # rest) =
     (if c \<noteq> CHR ''%'' then None
      else
        (case hex_octet h1 h2 of
           None \<Rightarrow> None
         | Some b \<Rightarrow>
             (let octs' = octs @ [b] in
              if j > 0 then decode j octs' rest
              else if valid_utf8 octs' then
                (case decode 0 [] rest of
                   None \<Rightarrow> None
                 | Some r \<Rightarrow> Some (map char_of octs' @ r))
              else None)))"
| "decode (Suc j) octs (c # cs) = None"

definition decodeURIComponent :: "string \<Rightarrow> exception + string" where
  "decodeURIComponent s = (case decode 0 [] s of None \<Rightarrow> Inl URIError | Some r \<Rightarrow> Inr r)"

text \<open>
  \<^verbatim>\<open>encodeURIComponent\<close>, with which the client page builds its download and delete
  URLs (\<^verbatim>\<open>src/public/client.js\<close>, lines 69 and 100): every octet of the UTF-8
  encoding is escaped, but the letters, the digits and \<^verbatim>\<open>- _ . ! ~ * ' ( )\<close>.
\<close>

definition unreserved :: "char \<Rightarrow> bool" where
  "unreserved c =
     (let n = (of_char c :: nat) in
      (65 \<le> n \<and> n \<le> 90) \<or> (97 \<le> n \<and> n \<le> 122) \<or> (48 \<le> n \<and> n \<le> 57)
      \<or> c \<in> set ''-_.!~*()'' \<or> c = CHR 0x27)"

definition hex_char :: "nat \<Rightarrow> char" where
  "hex_char k = ''0123456789ABCDEF'' ! k"

definition escape :: "nat \<Rightarrow> string" where
  "escape b = [CHR ''%'', hex_char (b div 16), hex_char (b mod 16)]"

definition encodeURIComponent :: "string \<Rightarrow> string" where
  "encodeURIComponent s = concat (map (\<lambda>c. if unreserved c then [c] else escape (of_char c)) s)"

text \<open>
  The strings that are UTF-8: sequences of ASCII characters and well-formed multi-byte
  encodings. Every JavaScript string without a lone surrogate is one, and
  \<^verbatim>\<open>encodeURIComponent\<close> throws on the others.
\<close>

inductive utf8 :: "string \<Rightarrow> bool" where
  empty: "utf8 []"
| ascii: "(of_char c :: nat) < 128 \<Longrightarrow> utf8 s \<Longrightarrow> utf8 (c # s)"
| multi: "valid_utf8 (map of_char cs) \<Longrightarrow> utf8 s \<Longrightarrow> utf8 (cs @ s)"

subsection \<open>\<^verbatim>\<open>path.join\<close> and \<^verbatim>\<open>path.extname\<close> (POSIX)\<close>

text \<open>
  One segment of \<^verbatim>\<open>normalizeString\<close>: an empty segment and \<^verbatim>\<open>.\<close> are
  dropped; \<^verbatim>\<open>..\<close> removes the segment before it, unless there is none or it is
  \<^verbatim>\<open>..\<close> itself, and then it is kept only above a relative path.
\<close>

definition normalize_segment :: "bool \<Rightarrow> string list \<Rightarrow> string \<Rightarrow> string list" where
  "normalize_segment allowAboveRoot res seg =
     (if seg = [] \<or> seg = ''.'' then res
      else if seg = ''..'' then
        (if res \<noteq> [] \<and> last res \<noteq> ''..'' then butlast res
         else if allowAboveRoot then res @ [''..'']
         else res)
      else res @ [seg])"

definition normalizeString :: "string \<Rightarrow> bool \<Rightarrow> string" where
  "normalizeString path allowAboveRoot =
     join_sep ''/'' (foldl (normalize_segment allowAboveRoot) [] (split (CHR ''/'') path))"

definition normalize :: "string \<Rightarrow> string" where
  "normalize path =
     (if path = [] then ''.''
      else
        (let isAbsolute = (hd path = CHR ''/'');
             trailingSeparator = (last path = CHR ''/'');
             p = normalizeString path (\<not> isAbsolute)
         in if p = [] then (if isAbsolute then ''/'' else if trailingSeparator then ''./'' else ''.'')
            else
              (let p' = (if trailingSeparator then p @ ''/'' else p)
               in if isAbsolute then CHR ''/'' # p' else p')))"

definition path_join :: "string list \<Rightarrow> string" where
  "path_join args =
     (let joined = join_sep ''/'' (filter (\<lambda>arg. arg \<noteq> []) args)
      in if joined = [] then ''.'' else normalize joined)"

text \<open>
  \<^verbatim>\<open>path.extname\<close>: the extension of the last non-empty segment, from its last
  dot; empty when the segment has no dot, starts with its only dot, or is \<^verbatim>\<open>..\<close>.
\<close>

definition last_segment :: "string \<Rightarrow> string" where
  "last_segment path =
     (case filter (\<lambda>s. s \<noteq> []) (split (CHR ''/'') path) of [] \<Rightarrow> [] | s # ss \<Rightarrow> last (s # ss))"

definition extname :: "string \<Rightarrow> string" where
  "extname path =
     (let b = last_segment path;
          e = pop (split (CHR ''.'') b)
      in if CHR ''.'' \<notin> set b \<or> b = ''..'' \<or> length e + 1 = length b then []
         else CHR ''.'' # e)"

subsection \<open>The file system\<close>

text \<open>
  The file system is a table from absolute paths, as lists of names from the root, to
  nodes; the order of the table means nothing. The root is a directory and has no
  entry. A broken link is a symbolic link whose target is missing: it can be listed,
  unlinked, renamed and replaced, and cannot be inspected or opened.
\<close>

type_synonym bytes = "8 word list"

datatype node = RegularFile bytes | Directory | Socket | BrokenLink

type_synonym filesystem = "(string list \<times> node) list"

datatype errno =
  ENOENT | ENOTDIR | EISDIR | ENOTEMPTY | EINVAL | ENXIO | ENAMETOOLONG | EBUSY

text \<open>The \<^verbatim>\<open>code\<close> and \<^verbatim>\<open>message\<close> properties of the error Node builds.\<close>

fun code :: "errno \<Rightarrow> string" where
  "code ENOENT = ''ENOENT''"
| "code ENOTDIR = ''ENOTDIR''"
| "code EISDIR = ''EISDIR''"
| "code ENOTEMPTY = ''ENOTEMPTY''"
| "code EINVAL = ''EINVAL''"
| "code ENXIO = ''ENXIO''"
| "code ENAMETOOLONG = ''ENAMETOOLONG''"
| "code EBUSY = ''EBUSY''"

fun description :: "errno \<Rightarrow> string" where
  "description ENOENT = ''no such file or directory''"
| "description ENOTDIR = ''not a directory''"
| "description EISDIR = ''illegal operation on a directory''"
| "description ENOTEMPTY = ''directory not empty''"
| "description EINVAL = ''invalid argument''"
| "description ENXIO = ''no such device or address''"
| "description ENAMETOOLONG = ''name too long''"
| "description EBUSY = ''resource busy or locked''"

definition message :: "errno \<Rightarrow> string \<Rightarrow> string list \<Rightarrow> string" where
  "message e syscall paths =
     code e @ '': '' @ description e @ '', '' @ syscall @ '' ''
       @ join_sep '' -> '' (map (\<lambda>p. [CHR 0x27] @ p @ [CHR 0x27]) paths)"

text \<open>
  Every function of \<^verbatim>\<open>fs\<close> checks its path before anything else: a path with
  a NUL character makes it throw \<^verbatim>\<open>ERR_INVALID_ARG_VALUE\<close>, at the call, also
  when the result of the call goes to a callback. The handlers below apply the check
  where the source hands \<^verbatim>\<open>fs\<close> a path made from a name of the request:
  before \<^verbatim>\<open>fs.access\<close>, \<^verbatim>\<open>fs.unlink\<close> and
  \<^verbatim>\<open>fs.rename\<close>. The other calls get a path that has passed it
  (\<^verbatim>\<open>fs.createReadStream\<close>, after \<^verbatim>\<open>fs.access\<close>) or that is made
  of \<^verbatim>\<open>__dirname\<close> and of what cannot hold a NUL character: a constant, a
  name \<^verbatim>\<open>fs.readdir\<close> returned, or \<^verbatim>\<open>req.url\<close> as the parser of
  HTTP admitted it.
\<close>

definition nullCheck :: "string \<Rightarrow> exception option" where
  "nullCheck p = (if CHR 0x00 \<in> set p then Some ERR_INVALID_ARG_VALUE else None)"

text \<open>The limits of Linux on the bytes of a path and of one name in it.\<close>

definition PATH_MAX :: nat where
  "PATH_MAX = 4096"

definition NAME_MAX :: nat where
  "NAME_MAX = 255"

definition components :: "string \<Rightarrow> string list" where
  "components p = filter (\<lambda>s. s \<noteq> []) (split (CHR ''/'') p)"

definition trailing_slash :: "string \<Rightarrow> bool" where
  "trailing_slash p = (p \<noteq> [] \<and> last p = CHR ''/'')"

definition lookup_node :: "filesystem \<Rightarrow> string list \<Rightarrow> node option" where
  "lookup_node fs cs = (if cs = [] then Some Directory else map_of fs cs)"

text \<open>What stands in the way of searching the directory \<open>cs\<close>, if anything.\<close>

definition search_error :: "filesystem \<Rightarrow> string list \<Rightarrow> errno option" where
  "search_error fs cs =
     (case lookup_node fs cs of
        None \<Rightarrow> Some ENOENT
      | Some Directory \<Rightarrow> None
      | Some BrokenLink \<Rightarrow> Some ENOENT
      | Some _ \<Rightarrow> Some ENOTDIR)"

text \<open>
  \<open>walk fs pre cs\<close> goes from the directory \<open>pre\<close> to the directory that holds the
  last name of \<open>cs\<close>: each name but the last is looked up in the directory reached
  so far, which must be one, and must itself not be too long.
\<close>

fun walk :: "filesystem \<Rightarrow> string list \<Rightarrow> string list \<Rightarrow> errno option" where
  "walk fs pre [] = None"
| "walk fs pre (c # cs) =
     (case search_error fs pre of
        Some e \<Rightarrow> Some e
      | None \<Rightarrow>
          if cs \<noteq> [] \<and> NAME_MAX < length c then Some ENAMETOOLONG
          else walk fs (pre @ [c]) cs)"

text \<open>What a path as a whole is refused for, before any name of it is looked up.\<close>

definition getname :: "string \<Rightarrow> errno option" where
  "getname p =
     (if p = [] then Some ENOENT
      else if PATH_MAX \<le> length p then Some ENAMETOOLONG
      else None)"

text \<open>The look-up of the last name \<open>cs\<close> ends in, in the directory \<open>walk\<close> reached.\<close>

definition lookup_last :: "filesystem \<Rightarrow> string list \<Rightarrow> errno + node" where
  "lookup_last fs cs =
     (if cs \<noteq> [] \<and> NAME_MAX < length (last cs) then Inl ENAMETOOLONG
      else
        (case lookup_node fs cs of
           None \<Rightarrow> Inl ENOENT
         | Some n \<Rightarrow> Inr n))"

text \<open>The node at the end of a path, whatever it is.\<close>

definition locate :: "filesystem \<Rightarrow> string \<Rightarrow> errno + node" where
  "locate fs p =
     (case getname p of
        Some e \<Rightarrow> Inl e
      | None \<Rightarrow>
          (case walk fs [] (components p) of
             Some e \<Rightarrow> Inl e
           | None \<Rightarrow> lookup_last fs (components p)))"

text \<open>The node a path names, a final symbolic link not followed (as
  \<^verbatim>\<open>unlink(2)\<close> reads its path): a path that ends in a slash names a
  directory only.\<close>

definition resolve :: "filesystem \<Rightarrow> string \<Rightarrow> errno + node" where
  "resolve fs p =
     (case locate fs p of
        Inl e \<Rightarrow> Inl e
      | Inr n \<Rightarrow> if trailing_slash p \<and> n \<noteq> Directory then Inl ENOTDIR else Inr n)"

text \<open>The same, a final symbolic link followed (as \<^verbatim>\<open>stat(2)\<close>,
  \<^verbatim>\<open>access(2)\<close> and \<^verbatim>\<open>open(2)\<close> read theirs): the target of a broken
  link is missing.\<close>

definition follow :: "filesystem \<Rightarrow> string \<Rightarrow> errno + node" where
  "follow fs p =
     (case locate fs p of
        Inl e \<Rightarrow> Inl e
      | Inr BrokenLink \<Rightarrow> Inl ENOENT
      | Inr n \<Rightarrow> if trailing_slash p \<and> n \<noteq> Directory then Inl ENOTDIR else Inr n)"

text \<open>\<^verbatim>\<open>fs.access(p, fs.constants.F_OK, cb)\<close>: the error given to the callback.\<close>

definition fs_access :: "filesystem \<Rightarrow> string \<Rightarrow> errno option" where
  "fs_access fs p = (case follow fs p of Inl e \<Rightarrow> Some e | Inr n \<Rightarrow> None)"

text \<open>\<^verbatim>\<open>fs.statSync(p)\<close>, and \<^verbatim>\<open>isFile()\<close> of its result.\<close>

definition fs_statSync :: "filesystem \<Rightarrow> string \<Rightarrow> errno + node" where
  "fs_statSync fs p = follow fs p"

fun isFile :: "node \<Rightarrow> bool" where
  "isFile (RegularFile b) = True"
| "isFile n = False"

text \<open>The names in the directory \<open>cs\<close>.\<close>

definition entries :: "filesystem \<Rightarrow> string list \<Rightarrow> string list" where
  "entries fs cs = map (\<lambda>(q, n). last q) (filter (\<lambda>(q, n). q \<noteq> [] \<and> butlast q = cs) fs)"

text \<open>\<^verbatim>\<open>fs.readdir(p, cb)\<close>. Node reads a directory with the
  \<^verbatim>\<open>scandir\<close> of libuv, which sorts the names with \<^verbatim>\<open>strcmp\<close>: byte by
  byte, which is the order of \<open>string\<close>.\<close>

definition fs_readdir :: "filesystem \<Rightarrow> string \<Rightarrow> errno + string list" where
  "fs_readdir fs p =
     (case follow fs p of
        Inl e \<Rightarrow> Inl e
      | Inr Directory \<Rightarrow> Inr (sort (entries fs (components p)))
      | Inr n \<Rightarrow> Inl ENOTDIR)"

text \<open>\<^verbatim>\<open>fs.readFile(p, cb)\<close>; \<^verbatim>\<open>fs.createReadStream(p)\<close> piped to the
  response delivers the same bytes, or emits the same error before any byte.\<close>

definition fs_readFile :: "filesystem \<Rightarrow> string \<Rightarrow> errno + bytes" where
  "fs_readFile fs p =
     (case follow fs p of
        Inl e \<Rightarrow> Inl e
      | Inr (RegularFile b) \<Rightarrow> Inr b
      | Inr Directory \<Rightarrow> Inl EISDIR
      | Inr n \<Rightarrow> Inl ENXIO)"

definition fs_createReadStream :: "filesystem \<Rightarrow> string \<Rightarrow> errno + bytes" where
  "fs_createReadStream fs p = fs_readFile fs p"

text \<open>\<^verbatim>\<open>fs.unlink(p, cb)\<close>: a directory is refused, anything else is removed.\<close>

definition fs_unlink :: "filesystem \<Rightarrow> string \<Rightarrow> errno + filesystem" where
  "fs_unlink fs p =
     (case resolve fs p of
        Inl e \<Rightarrow> Inl e
      | Inr Directory \<Rightarrow> Inl EISDIR
      | Inr n \<Rightarrow> Inr (filter (\<lambda>(q, m). q \<noteq> components p) fs))"

text \<open>
  \<open>move fs old new\<close> takes what is at or below \<open>old\<close> to \<open>new\<close>, in place of what
  was at or below \<open>new\<close>.
\<close>

definition move :: "filesystem \<Rightarrow> string list \<Rightarrow> string list \<Rightarrow> filesystem" where
  "move fs old new =
     filter (\<lambda>(q, n). \<not> prefix old q \<and> \<not> prefix new q) fs
       @ map (\<lambda>(q, n). (new @ drop (length old) q, n)) (filter (\<lambda>(q, n). prefix old q) fs)"

text \<open>
  \<^verbatim>\<open>fs.rename(oldPath, newPath, cb)\<close>, in the order \<^verbatim>\<open>rename(2)\<close> of
  Linux takes its steps. The directory of the source is reached, then the directory of
  the target. Neither path may be the root (\<^verbatim>\<open>EBUSY\<close>). The source is looked
  up and must exist, then the target is looked up. What is not a directory takes and
  gives no name that ends in a slash. A directory does not move below itself
  (\<^verbatim>\<open>EINVAL\<close>), and nothing replaces a directory it lies in
  (\<^verbatim>\<open>ENOTEMPTY\<close>). Renaming to the same name does nothing. Else the target
  may be missing; a directory replaces an empty directory only, and what is not a
  directory replaces what is not a directory only.
\<close>

definition fs_rename :: "filesystem \<Rightarrow> string \<Rightarrow> string \<Rightarrow> errno + filesystem" where
  "fs_rename fs oldPath newPath =
     (let old = components oldPath; new = components newPath in
      case getname oldPath of
        Some e \<Rightarrow> Inl e
      | None \<Rightarrow>
      (case walk fs [] old of
        Some e \<Rightarrow> Inl e
      | None \<Rightarrow>
      (case getname newPath of
        Some e \<Rightarrow> Inl e
      | None \<Rightarrow>
      (case walk fs [] new of
        Some e \<Rightarrow> Inl e
      | None \<Rightarrow>
          if old = [] \<or> new = [] then Inl EBUSY
          else
            (case lookup_last fs old of
               Inl e \<Rightarrow> Inl e
             | Inr n \<Rightarrow>
                 if NAME_MAX < length (last new) then Inl ENAMETOOLONG
                 else if n \<noteq> Directory \<and> (trailing_slash oldPath \<or> trailing_slash newPath)
                 then Inl ENOTDIR
                 else if strict_prefix old new then Inl EINVAL
                 else if strict_prefix new old then Inl ENOTEMPTY
                 else if old = new then Inr fs
                 else
                   (case map_of fs new of
                      None \<Rightarrow> Inr (move fs old new)
                    | Some Directory \<Rightarrow>
                        if n \<noteq> Directory then Inl EISDIR
                        else if entries fs new \<noteq> [] then Inl ENOTEMPTY
                        else Inr (move fs old new)
                    | Some m \<Rightarrow>
                        if n = Directory then Inl ENOTDIR
                        else Inr (move fs old new)))))))"

subsection \<open>Requests, responses and what \<^verbatim>\<open>form.parse\<close> delivers\<close>

text \<open>A \<^verbatim>\<open>File\<close> of formidable, with the two properties the source reads.
  formidable declares \<^verbatim>\<open>originalFilename\<close> as \<^verbatim>\<open>string | null\<close>:
  \<open>None\<close> is \<^verbatim>\<open>null\<close>.\<close>

record upload_file =
  filepath :: string
  originalFilename :: "string option"

text \<open>\<^verbatim>\<open>files.myFile\<close>: missing, one file, or an array of files.\<close>

datatype myFile = Undefined | OneFile upload_file | FileArray "upload_file list"

text \<open>The arguments of the callback of \<^verbatim>\<open>form.parse\<close>: an error with its message,
  or the files.\<close>

datatype parsed = ParseError string | Parsed myFile

record request =
  req_method :: string
  req_url :: string
  req_form :: parsed

text \<open>A JSON body is kept as the value given to \<^verbatim>\<open>JSON.stringify\<close>.\<close>

datatype json = JBool bool | JString string | JArray "json list" | JObject "(string \<times> json) list"

datatype body = Empty | Text string | Json json | Raw bytes

record response =
  status :: nat
  headers :: "(string \<times> string) list"
  body :: body

datatype outcome = Responded response filesystem | Uncaught exception

text \<open>\<^verbatim>\<open>res.writeHead(st, hdrs); res.end(b)\<close> on a response whose headers \<open>res\<close>
  were set with \<^verbatim>\<open>res.setHeader\<close>.\<close>

definition respond :: "(string \<times> string) list \<Rightarrow> nat \<Rightarrow> (string \<times> string) list \<Rightarrow> body \<Rightarrow> response" where
  "respond res st hdrs b = \<lparr>status = st, headers = res @ hdrs, body = b\<rparr>"

text \<open>
  \<^verbatim>\<open>writeHead\<close> and \<^verbatim>\<open>setHeader\<close> check every header value against
  \<^verbatim>\<open>/[^\t\x20-\x7e\x80-\xff]/\<close> and throw \<^verbatim>\<open>ERR_INVALID_CHAR\<close> when
  it matches: a value may hold the tab, the printable ASCII characters and the
  characters U+0080 to U+00FF, and no other. In UTF-8 the characters up to U+00FF are
  written with octets up to 0xC3, and every character above U+00FF starts with an octet
  from 0xC4 on; so the octets a value may hold are 9, 32 to 126 and 128 to 195.
\<close>

definition header_octet :: "nat \<Rightarrow> bool" where
  "header_octet n = (n = 9 \<or> (32 \<le> n \<and> n \<le> 126) \<or> (128 \<le> n \<and> n \<le> 195))"

definition checkInvalidHeaderChar :: "string \<Rightarrow> bool" where
  "checkInvalidHeaderChar val = list_ex (\<lambda>c. \<not> header_octet (of_char c)) val"

definition validateHeaderValue :: "string \<Rightarrow> exception option" where
  "validateHeaderValue val = (if checkInvalidHeaderChar val then Some ERR_INVALID_CHAR else None)"

text \<open>
  All header values of the source but one are constants, of printable ASCII
  characters (the entries of \<open>mimeTypes\<close> among them), which pass this check: there
  the model writes the headers without it. The one value made from the request is the
  \<^verbatim>\<open>Content-Disposition\<close> of a download.
\<close>

subsection \<open>The handlers (\<^verbatim>\<open>src/public/client.js\<close>, lines 162-379)\<close>

definition UPLOAD_DIR :: "string \<Rightarrow> string" where
  "UPLOAD_DIR dirname = path_join [dirname, ''uploads'']"

definition PUBLIC_DIR :: "string \<Rightarrow> string" where
  "PUBLIC_DIR dirname = path_join [dirname, ''public'']"

definition mimeTypes :: "(string \<times> string) list" where
  "mimeTypes =
     [(''.html'', ''text/html''),
      (''.js'', ''application/javascript''),
      (''.css'', ''text/css''),
      (''.json'', ''application/json''),
      (''.png'', ''image/png''),
      (''.jpg'', ''image/jpeg''),
      (''.gif'', ''image/gif''),
      (''.svg'', ''image/svg+xml''),
      (''.ico'', ''image/x-icon'')]"

text \<open>Line 230: the first file of an array, the file itself otherwise.\<close>

fun uploadedFile :: "myFile \<Rightarrow> upload_file option" where
  "uploadedFile Undefined = None"
| "uploadedFile (OneFile f) = Some f"
| "uploadedFile (FileArray []) = None"
| "uploadedFile (FileArray (f # fs)) = Some f"

text \<open>Lines 222-254, the callback of \<^verbatim>\<open>form.parse\<close>. Nothing in it is inside a
  \<^verbatim>\<open>try\<close>: \<^verbatim>\<open>path.join\<close> throws when the name is
  \<^verbatim>\<open>null\<close>, and \<^verbatim>\<open>fs.rename\<close> throws when one of its paths has a
  NUL character, before it renames anything.\<close>

definition upload_handler :: "string \<Rightarrow> (string \<times> string) list \<Rightarrow> filesystem \<Rightarrow> parsed \<Rightarrow> outcome" where
  "upload_handler dirname res fs p =
     (case p of
        ParseError err_message \<Rightarrow>
          Responded
            (respond res 500 [(''Content-Type'', ''application/json'')]
               (Json (JObject [(''success'', JBool False),
                               (''message'', JString ''File upload failed.''),
                               (''error'', JString err_message)])))
            fs
      | Parsed files_myFile \<Rightarrow>
          (case uploadedFile files_myFile of
             None \<Rightarrow>
               Responded
                 (respond res 400 [(''Content-Type'', ''application/json'')]
                    (Json (JObject [(''success'', JBool False),
                                    (''message'',
                                     JString (''No file uploaded or file field '' @ [CHR 0x22]
                                              @ ''myFile'' @ [CHR 0x22] @ '' not found.''))])))
                 fs
           | Some f \<Rightarrow>
               (case originalFilename f of
                  None \<Rightarrow> Uncaught ERR_INVALID_ARG_TYPE
                | Some fileName \<Rightarrow>
                    (let oldPath = filepath f;
                         newPath = path_join [UPLOAD_DIR dirname, fileName]
                     in case nullCheck oldPath of
                          Some exn \<Rightarrow> Uncaught exn
                        | None \<Rightarrow>
                     (case nullCheck newPath of
                          Some exn \<Rightarrow> Uncaught exn
                        | None \<Rightarrow>
                     (case fs_rename fs oldPath newPath of
                        Inl renameErr \<Rightarrow>
                          Responded
                            (respond res 500 [(''Content-Type'', ''application/json'')]
                               (Json (JObject [(''success'', JBool False),
                                               (''message'', JString ''Error saving file.''),
                                               (''error'',
                                                JString (message renameErr ''rename''
                                                           [oldPath, newPath]))])))
                            fs
                      | Inr fs' \<Rightarrow>
                          Responded
                            (respond res 200 [(''Content-Type'', ''application/json'')]
                               (Json (JObject [(''success'', JBool True),
                                               (''message'', JString ''File uploaded successfully!''),
                                               (''fileName'', JString fileName)])))
                            fs'))))))"

text \<open>Lines 267-274: the entries whose \<^verbatim>\<open>statSync\<close> returns and says regular file;
  the \<^verbatim>\<open>catch\<close> answers \<^verbatim>\<open>false\<close>.\<close>

definition fileNames :: "string \<Rightarrow> filesystem \<Rightarrow> string list \<Rightarrow> string list" where
  "fileNames dirname fs files =
     filter
       (\<lambda>file. case fs_statSync fs (path_join [UPLOAD_DIR dirname, file]) of
                 Inl e \<Rightarrow> False
               | Inr stats \<Rightarrow> isFile stats)
       files"

text \<open>Lines 260-277.\<close>

definition listing_handler :: "string \<Rightarrow> (string \<times> string) list \<Rightarrow> filesystem \<Rightarrow> outcome" where
  "listing_handler dirname res fs =
     (case fs_readdir fs (UPLOAD_DIR dirname) of
        Inl err \<Rightarrow>
          Responded
            (respond res 500 [(''Content-Type'', ''application/json'')]
               (Json (JObject [(''success'', JBool False),
                               (''message'', JString ''Could not list files.'')])))
            fs
      | Inr files \<Rightarrow>
          Responded
            (respond res 200 [(''Content-Type'', ''application/json'')]
               (Json (JObject [(''success'', JBool True),
                               (''files'', JArray (map JString (fileNames dirname fs files)))])))
            fs)"

text \<open>Lines 283-307. \<^verbatim>\<open>decodeURIComponent\<close> and \<^verbatim>\<open>fs.access\<close> are
  called in the listener itself, and \<^verbatim>\<open>writeHead\<close> in the callback of
  \<^verbatim>\<open>fs.access\<close>, each outside any \<^verbatim>\<open>try\<close>: what they throw is not
  caught. When \<^verbatim>\<open>writeHead\<close> throws, no stream has been opened.\<close>

definition download_handler :: "string \<Rightarrow> (string \<times> string) list \<Rightarrow> filesystem \<Rightarrow> string \<Rightarrow> outcome" where
  "download_handler dirname res fs url =
     (case decodeURIComponent (pop (split (CHR ''/'') url)) of
        Inl exn \<Rightarrow> Uncaught exn
      | Inr fileName \<Rightarrow>
          (let filePath = path_join [UPLOAD_DIR dirname, fileName] in
           case nullCheck filePath of
             Some exn \<Rightarrow> Uncaught exn
           | None \<Rightarrow>
          (case fs_access fs filePath of
             Some err \<Rightarrow>
               Responded (respond res 404 [(''Content-Type'', ''text/plain'')] (Text ''File not found.'')) fs
           | None \<Rightarrow>
               (let disposition = ''attachment; filename='' @ [CHR 0x22] @ fileName @ [CHR 0x22] in
                case validateHeaderValue disposition of
                  Some exn \<Rightarrow> Uncaught exn
                | None \<Rightarrow>
                    Responded
                      (respond res 200
                         [(''Content-Type'', ''application/octet-stream''),
                          (''Content-Disposition'', disposition)]
                         (case fs_createReadStream fs filePath of
                            Inr content \<Rightarrow> Raw content
                          | Inl streamErr \<Rightarrow> Text ''Error downloading file.''))
                      fs))))"

text \<open>Lines 313-334. \<^verbatim>\<open>decodeURIComponent\<close> and \<^verbatim>\<open>fs.unlink\<close> are
  called in the listener itself, outside any \<^verbatim>\<open>try\<close>.\<close>

definition delete_handler :: "string \<Rightarrow> (string \<times> string) list \<Rightarrow> filesystem \<Rightarrow> string \<Rightarrow> outcome" where
  "delete_handler dirname res fs url =
     (case decodeURIComponent (pop (split (CHR ''/'') url)) of
        Inl exn \<Rightarrow> Uncaught exn
      | Inr fileName \<Rightarrow>
          (let filePath = path_join [UPLOAD_DIR dirname, fileName] in
           case nullCheck filePath of
             Some exn \<Rightarrow> Uncaught exn
           | None \<Rightarrow>
          (case fs_unlink fs filePath of
             Inl err \<Rightarrow>
               if err = ENOENT then
                 Responded
                   (respond res 404 [(''Content-Type'', ''application/json'')]
                      (Json (JObject [(''success'', JBool False),
                                      (''message'', JString ''File not found.'')])))
                   fs
               else
                 Responded
                   (respond res 500 [(''Content-Type'', ''application/json'')]
                      (Json (JObject [(''success'', JBool False),
                                      (''message'',
                                       JString (''Failed to delete file: ''
                                                @ message err ''unlink'' [filePath]))])))
                   fs
           | Inr fs' \<Rightarrow>
               Responded
                 (respond res 200 [(''Content-Type'', ''application/json'')]
                    (Json (JObject [(''success'', JBool True),
                                    (''message'', JString ''File deleted successfully!'')])))
                 fs')))"

text \<open>Lines 340-345: the path and the content type of a static file. The path is made
  of \<^verbatim>\<open>req.url\<close> as it came, not decoded.\<close>

definition static_path :: "string \<Rightarrow> string \<Rightarrow> string" where
  "static_path dirname url =
     (let requestedPath = (if url = ''/'' then ''/client.html'' else url)
      in path_join [PUBLIC_DIR dirname, requestedPath])"

definition contentType :: "string \<Rightarrow> string" where
  "contentType filePath =
     (case map_of mimeTypes (toLowerCase (extname filePath)) of
        Some t \<Rightarrow> t
      | None \<Rightarrow> ''application/octet-stream'')"

text \<open>Lines 340-367.\<close>

definition static_handler :: "string \<Rightarrow> (string \<times> string) list \<Rightarrow> filesystem \<Rightarrow> string \<Rightarrow> outcome" where
  "static_handler dirname res fs url =
     (let filePath = static_path dirname url in
      case fs_readFile fs filePath of
        Inl error \<Rightarrow>
          if error = ENOENT then
            Responded
              (respond res 404 [(''Content-Type'', ''text/html'')]
                 (Text ''<h1>404 Not Found</h1><p>The requested file could not be found.</p>''))
              fs
          else
            Responded
              (respond res 500 []
                 (Text (''<h1>500 Internal Server Error: '' @ code error @ ''</h1>'')))
              fs
      | Inr content \<Rightarrow>
          Responded (respond res 200 [(''Content-Type'', contentType filePath)] (Raw content)) fs)"

text \<open>Lines 195-369, the request listener. The first three lines set the headers every
  later \<^verbatim>\<open>writeHead\<close> adds to.\<close>

definition cors :: "(string \<times> string) list" where
  "cors =
     [(''Access-Control-Allow-Origin'', ''*''),
      (''Access-Control-Allow-Methods'', ''GET, POST, DELETE, OPTIONS''),
      (''Access-Control-Allow-Headers'', ''Content-Type, X-Requested-With'')]"

definition server :: "string \<Rightarrow> filesystem \<Rightarrow> request \<Rightarrow> outcome" where
  "server dirname fs req =
     (if req_method req = ''OPTIONS'' then Responded (respond cors 204 [] Empty) fs
      else if req_url req = ''/upload'' \<and> req_method req = ''POST'' then
        upload_handler dirname cors fs (req_form req)
      else if req_url req = ''/files'' \<and> req_method req = ''GET'' then
        listing_handler dirname cors fs
      else if startsWith (req_url req) ''/download/'' \<and> req_method req = ''GET'' then
        download_handler dirname cors fs (req_url req)
      else if startsWith (req_url req) ''/delete/'' \<and> req_method req = ''DELETE'' then
        delete_handler dirname cors fs (req_url req)
      else static_handler dirname cors fs (req_url req))"

subsection \<open>The older listener (\<^verbatim>\<open>src/client.js\<close>)\<close>

text \<open>Its upload, listing and download routes are those of the current listener, line
  for line; it has no delete route, and serves two fixed files.\<close>

definition cors_v1 :: "(string \<times> string) list" where
  "cors_v1 =
     [(''Access-Control-Allow-Origin'', ''*''),
      (''Access-Control-Allow-Methods'', ''GET, POST, OPTIONS''),
      (''Access-Control-Allow-Headers'', ''Content-Type, X-Requested-With'')]"

text \<open>Lines 143-153 and 159-170: a fixed file, or a plain-text 500.\<close>

definition fixed_file_handler ::
  "(string \<times> string) list \<Rightarrow> filesystem \<Rightarrow> string \<Rightarrow> string \<Rightarrow> string \<Rightarrow> outcome" where
  "fixed_file_handler res fs filePath type failure =
     (case fs_readFile fs filePath of
        Inl err \<Rightarrow> Responded (respond res 500 [(''Content-Type'', ''text/plain'')] (Text failure)) fs
      | Inr data \<Rightarrow> Responded (respond res 200 [(''Content-Type'', type)] (Raw data)) fs)"

definition server_v1 :: "string \<Rightarrow> filesystem \<Rightarrow> request \<Rightarrow> outcome" where
  "server_v1 dirname fs req =
     (if req_method req = ''OPTIONS'' then Responded (respond cors_v1 204 [] Empty) fs
      else if req_url req = ''/upload'' \<and> req_method req = ''POST'' then
        upload_handler dirname cors_v1 fs (req_form req)
      else if req_url req = ''/files'' \<and> req_method req = ''GET'' then
        listing_handler dirname cors_v1 fs
      else if startsWith (req_url req) ''/download/'' \<and> req_method req = ''GET'' then
        download_handler dirname cors_v1 fs (req_url req)
      else if req_url req = ''/client.js'' \<and> req_method req = ''GET'' then
        fixed_file_handler cors_v1 fs (path_join [dirname, ''client.js'']) ''text/javascript''
          ''Internal Server Error: Could not load JavaScript file.''
      else
        fixed_file_handler cors_v1 fs (path_join [dirname, ''client.html'']) ''text/html''
          ''Internal Server Error: Could not load client page.'')"

subsection \<open>Reading an outcome\<close>

text \<open>The response that was sent, if the listener did not throw.\<close>

definition sent :: "outcome \<Rightarrow> response option" where
  "sent out = (case out of Responded r fs \<Rightarrow> Some r | Uncaught exn \<Rightarrow> None)"

definition header :: "string \<Rightarrow> response \<Rightarrow> string option" where
  "header name r = map_of (headers r) name"

text \<open>A property of a JSON object body, and the names in its \<^verbatim>\<open>files\<close> array.\<close>

definition json_field :: "string \<Rightarrow> body \<Rightarrow> json option" where
  "json_field key b = (case b of Json (JObject kvs) \<Rightarrow> map_of kvs key | _ \<Rightarrow> None)"

definition listed :: "body \<Rightarrow> string list" where
  "listed b =
     (case json_field ''files'' b of
        Some (JArray js) \<Rightarrow> concat (map (\<lambda>j. case j of JString s \<Rightarrow> [s] | _ \<Rightarrow> []) js)
      | _ \<Rightarrow> [])"

subsection \<open>A deployment to run the listener on\<close>

text \<open>
  The server lives in \<^verbatim>\<open>/app\<close>. Its storage directory holds a stored file, a
  sub-directory, a broken link and a file formidable has just staged; its public
  directory holds the client page.
\<close>

definition example_fs :: filesystem where
  "example_fs =
     [([''app''], Directory),
      ([''app'', ''server.js''], RegularFile [1, 2, 3]),
      ([''app'', ''uploads''], Directory),
      ([''app'', ''uploads'', ''a.txt''], RegularFile [7]),
      ([''app'', ''uploads'', ''sub''], Directory),
      ([''app'', ''uploads'', ''lnk''], BrokenLink),
      ([''app'', ''uploads'', ''upload_1''], RegularFile [9, 9]),
      ([''app'', ''public''], Directory),
      ([''app'', ''public'', ''client.html''], RegularFile [60])]"

text \<open>The same after the staged file was uploaded as \<^verbatim>\<open>a.txt\<close>, and after
  \<^verbatim>\<open>a.txt\<close> was deleted instead.\<close>

definition example_fs_uploaded :: filesystem where
  "example_fs_uploaded =
     [([''app''], Directory),
      ([''app'', ''server.js''], RegularFile [1, 2, 3]),
      ([''app'', ''uploads''], Directory),
      ([''app'', ''uploads'', ''sub''], Directory),
      ([''app'', ''uploads'', ''lnk''], BrokenLink),
      ([''app'', ''public''], Directory),
      ([''app'', ''public'', ''client.html''], RegularFile [60]),
      ([''app'', ''uploads'', ''a.txt''], RegularFile [9, 9])]"

definition example_fs_deleted :: filesystem where
  "example_fs_deleted =
     [([''app''], Directory),
      ([''app'', ''server.js''], RegularFile [1, 2, 3]),
      ([''app'', ''uploads''], Directory),
      ([''app'', ''uploads'', ''sub''], Directory),
      ([''app'', ''uploads'', ''lnk''], BrokenLink),
      ([''app'', ''uploads'', ''upload_1''], RegularFile [9, 9]),
      ([''app'', ''public''], Directory),
      ([''app'', ''public'', ''client.html''], RegularFile [60])]"

text \<open>A request without a form, the upload of the staged file under a name, and under
  the name \<^verbatim>\<open>a.txt\<close>.\<close>

definition request :: "string \<Rightarrow> string \<Rightarrow> request" where
  "request m u = \<lparr>req_method = m, req_url = u, req_form = Parsed Undefined\<rparr>"

definition upload_as :: "string \<Rightarrow> request" where
  "upload_as name =
     \<lparr>req_method = ''POST'', req_url = ''/upload'',
      req_form =
        Parsed (FileArray [\<lparr>filepath = ''/app/uploads/upload_1'', originalFilename = Some name\<rparr>])\<rparr>"

definition example_upload :: request where
  "example_upload = upload_as ''a.txt''"

text \<open>
  A name whose first character is the euro sign, U+20AC, three octets in UTF-8, before
  \<^verbatim>\<open>.txt\<close>; the example deployment with a file of that name stored already,
  and after the staged file was uploaded under that name.
\<close>

definition euro_txt :: string where
  "euro_txt = [CHR 0xE2, CHR 0x82, CHR 0xAC] @ ''.txt''"

definition example_fs_euro_stored :: filesystem where
  "example_fs_euro_stored =
     example_fs @ [([''app'', ''uploads'', euro_txt], RegularFile [7])]"

definition example_fs_euro :: filesystem where
  "example_fs_euro =
     [([''app''], Directory),
      ([''app'', ''server.js''], RegularFile [1, 2, 3]),
      ([''app'', ''uploads''], Directory),
      ([''app'', ''uploads'', ''a.txt''], RegularFile [7]),
      ([''app'', ''uploads'', ''sub''], Directory),
      ([''app'', ''uploads'', ''lnk''], BrokenLink),
      ([''app'', ''public''], Directory),
      ([''app'', ''public'', ''client.html''], RegularFile [60]),
      ([''app'', ''uploads'', euro_txt], RegularFile [9, 9])]"

section \<open>Lemmas\<close>

subsection \<open>Routing\<close>

lemma upload_route:
  "req_url req = ''/upload'' \<Longrightarrow> req_method req = ''POST'' \<Longrightarrow>
   server dirname fs req = upload_handler dirname cors fs (req_form req)"
  by (simp add: server_def)

lemma listing_route:
  "req_url req = ''/files'' \<Longrightarrow> req_method req = ''GET'' \<Longrightarrow>
   server dirname fs req = listing_handler dirname cors fs"
  by (simp add: server_def)

lemma download_route:
  "startsWith (req_url req) ''/download/'' \<Longrightarrow> req_method req = ''GET'' \<Longrightarrow>
   server dirname fs req = download_handler dirname cors fs (req_url req)"
  by (auto simp: server_def startsWith_def)

lemma delete_route:
  "startsWith (req_url req) ''/delete/'' \<Longrightarrow> req_method req = ''DELETE'' \<Longrightarrow>
   server dirname fs req = delete_handler dirname cors fs (req_url req)"
  by (auto simp: server_def startsWith_def)

subsection \<open>Headers\<close>

lemma upload_handler_headers:
  "upload_handler d res fs p = Responded r fs' \<Longrightarrow> \<exists>hdrs. headers r = res @ hdrs"
  by (auto simp: upload_handler_def respond_def Let_def
      split: parsed.splits option.splits sum.splits)

lemma listing_handler_headers:
  "listing_handler d res fs = Responded r fs' \<Longrightarrow> \<exists>hdrs. headers r = res @ hdrs"
  by (auto simp: listing_handler_def respond_def split: sum.splits)

lemma download_handler_headers:
  "download_handler d res fs u = Responded r fs' \<Longrightarrow> \<exists>hdrs. headers r = res @ hdrs"
  by (auto simp: download_handler_def respond_def Let_def split: sum.splits option.splits)

lemma delete_handler_headers:
  "delete_handler d res fs u = Responded r fs' \<Longrightarrow> \<exists>hdrs. headers r = res @ hdrs"
  by (auto simp: delete_handler_def respond_def Let_def
      split: sum.splits option.splits if_splits)

lemma static_handler_headers:
  "static_handler d res fs u = Responded r fs' \<Longrightarrow> \<exists>hdrs. headers r = res @ hdrs"
  by (auto simp: static_handler_def respond_def Let_def split: sum.splits if_splits)

lemma fixed_file_handler_headers:
  "fixed_file_handler res fs p t f = Responded r fs' \<Longrightarrow> \<exists>hdrs. headers r = res @ hdrs"
  by (auto simp: fixed_file_handler_def respond_def split: sum.splits)

lemma server_headers:
  "server d fs req = Responded r fs' \<Longrightarrow> \<exists>hdrs. headers r = cors @ hdrs"
  unfolding server_def
  by (auto simp: respond_def split: if_splits
      dest: upload_handler_headers listing_handler_headers download_handler_headers
        delete_handler_headers static_handler_headers)

lemma server_v1_headers:
  "server_v1 d fs req = Responded r fs' \<Longrightarrow> \<exists>hdrs. headers r = cors_v1 @ hdrs"
  unfolding server_v1_def
  by (auto simp: respond_def split: if_splits
      dest: upload_handler_headers listing_handler_headers download_handler_headers
        fixed_file_handler_headers)

lemma header_of_set:
  "headers r = res @ hdrs \<Longrightarrow> map_of res name = Some v \<Longrightarrow> header name r = Some v"
  by (simp add: header_def map_add_Some_iff)

text \<open>The constant header values of the source pass the check of \<^verbatim>\<open>writeHead\<close>.\<close>

lemma constant_values_valid:
  "list_all (\<lambda>val. validateHeaderValue val = None)
     (map snd cors @ map snd cors_v1 @ map snd mimeTypes
        @ [''application/json'', ''text/plain'', ''text/html'', ''text/javascript'',
           ''application/octet-stream''])"
  by code_simp

text \<open>The \<^verbatim>\<open>Content-Disposition\<close> of a download passes it when the name does.\<close>

lemma checkInvalidHeaderChar_append:
  "checkInvalidHeaderChar (a @ b) \<longleftrightarrow> checkInvalidHeaderChar a \<or> checkInvalidHeaderChar b"
  by (simp add: checkInvalidHeaderChar_def)

lemma disposition_valid:
  "validateHeaderValue (''attachment; filename='' @ [CHR 0x22] @ name @ [CHR 0x22])
     = validateHeaderValue name"
proof -
  have "\<not> checkInvalidHeaderChar ''attachment; filename=''"
    by code_simp
  moreover have "\<not> checkInvalidHeaderChar [CHR 0x22]"
    by code_simp
  ultimately have "checkInvalidHeaderChar (''attachment; filename='' @ [CHR 0x22] @ name @ [CHR 0x22])
      = checkInvalidHeaderChar name"
    unfolding checkInvalidHeaderChar_append by blast
  then show ?thesis
    unfolding validateHeaderValue_def by (simp only:)
qed

subsection \<open>Looking up a path\<close>

lemma walk_None_iff:
  "walk fs pre cs = None \<longleftrightarrow>
     (\<forall>k<length cs. search_error fs (pre @ take k cs) = None)
     \<and> (\<forall>c \<in> set (butlast cs). length c \<le> NAME_MAX)"
proof (induction cs arbitrary: pre)
  case Nil
  show ?case by simp
next
  case (Cons c cs)
  have "(\<forall>k<Suc (length cs). search_error fs (pre @ take k (c # cs)) = None)
      \<longleftrightarrow> search_error fs pre = None
          \<and> (\<forall>k<length cs. search_error fs ((pre @ [c]) @ take k cs) = None)"
    by (auto simp: less_Suc_eq_0_disj)
  then show ?case
    using Cons.IH [of "pre @ [c]"] by (auto split: option.splits)
qed

lemma search_error_None_iff:
  "search_error fs cs = None \<longleftrightarrow> lookup_node fs cs = Some Directory"
  by (auto simp: search_error_def split: option.splits node.splits)

lemma walk_preserved:
  assumes "walk fs [] cs = None"
    and "\<And>k. k < length cs \<Longrightarrow> lookup_node fs' (take k cs) = lookup_node fs (take k cs)"
  shows "walk fs' [] cs = None"
  using assms by (simp add: walk_None_iff search_error_None_iff)

text \<open>What lies on the way to a name is a directory.\<close>

lemma walk_through_directory:
  assumes "walk fs [] cs = None" and "strict_prefix q cs"
  shows "lookup_node fs q = Some Directory"
proof -
  from assms(2) obtain zs where cs: "cs = q @ zs" and "zs \<noteq> []"
    by (auto simp: strict_prefix_def prefix_def)
  then have "length q < length cs" and "take (length q) cs = q"
    by simp_all
  then have "search_error fs ([] @ q) = None"
    using assms(1) unfolding walk_None_iff by metis
  then show ?thesis
    by (simp add: search_error_None_iff)
qed

lemma locate_InrD:
  assumes "locate fs p = Inr n"
  shows "getname p = None" and "walk fs [] (components p) = None"
    and "lookup_last fs (components p) = Inr n"
    and "lookup_node fs (components p) = Some n"
  using assms
  by (auto simp: locate_def lookup_last_def split: if_splits option.splits)

lemma resolve_InrD:
  assumes "resolve fs p = Inr n"
  shows "getname p = None" and "walk fs [] (components p) = None"
    and "lookup_last fs (components p) = Inr n"
    and "lookup_node fs (components p) = Some n"
    and "trailing_slash p \<Longrightarrow> n = Directory"
  using assms locate_InrD [of fs p n]
  by (auto simp: resolve_def split: sum.splits if_splits)

lemma resolve_InrI:
  assumes "getname p = None" and "walk fs [] (components p) = None"
    and "lookup_last fs (components p) = Inr n" and "\<not> trailing_slash p"
  shows "resolve fs p = Inr n"
  using assms by (simp add: resolve_def locate_def)

lemma follow_regular:
  "follow fs p = Inr (RegularFile b) \<Longrightarrow> resolve fs p = Inr (RegularFile b)"
  by (auto simp: follow_def resolve_def split: sum.splits node.splits if_splits)

text \<open>A regular file has a name, and its path does not end in a slash.\<close>

lemma resolve_regularD:
  assumes "resolve fs p = Inr (RegularFile b)"
  shows "components p \<noteq> []" and "map_of fs (components p) = Some (RegularFile b)"
    and "\<not> trailing_slash p" and "length (last (components p)) \<le> NAME_MAX"
proof -
  note r = resolve_InrD [OF assms]
  show ne: "components p \<noteq> []"
    using r(4) by (auto simp: lookup_node_def split: if_splits)
  show "map_of fs (components p) = Some (RegularFile b)"
    using r(4) ne by (simp add: lookup_node_def)
  show "\<not> trailing_slash p"
    using r(5) by auto
  show "length (last (components p)) \<le> NAME_MAX"
    using r(3) ne by (auto simp: lookup_last_def split: if_splits)
qed

subsection \<open>Tables of nodes\<close>

lemma fst_filter_keys:
  "map fst (filter (\<lambda>(q, n). P q) fs) = filter P (map fst fs)"
  by (induction fs) auto

lemma map_of_filter_keys:
  "map_of (filter (\<lambda>(q, n). P q) fs) k = (if P k then map_of fs k else None)"
  by (induction fs) auto

lemma map_of_without:
  "map_of (filter (\<lambda>(q, m). q \<noteq> k) fs) k = None"
  by (induction fs) auto

lemma map_of_moved:
  "map_of (map (\<lambda>(q, n). (new @ drop (length old) q, n))
             (filter (\<lambda>(q, n). prefix old q) fs)) (new @ x)
   = map_of fs (old @ x)"
proof (induction fs)
  case Nil
  show ?case by simp
next
  case (Cons a fs)
  obtain q n where a: "a = (q, n)" by (cases a)
  show ?case
  proof (cases "prefix old q")
    case True
    then obtain y where q: "q = old @ y" by (auto simp: prefix_def)
    show ?thesis using Cons.IH by (simp add: a q)
  next
    case False
    then have "q \<noteq> old @ x" by (auto simp: prefix_def)
    then show ?thesis using Cons.IH False by (simp add: a)
  qed
qed

lemma map_of_move:
  "map_of (move fs old new) q =
     (if prefix new q then map_of fs (old @ drop (length new) q)
      else if prefix old q then None
      else map_of fs q)"
proof (cases "prefix new q")
  case True
  then obtain x where q: "q = new @ x" by (auto simp: prefix_def)
  have "map_of (filter (\<lambda>(q, n). \<not> prefix old q \<and> \<not> prefix new q) fs) (new @ x) = None"
    by (simp add: map_of_filter_keys)
  then show ?thesis
    using map_of_moved [of new old fs x] by (simp add: move_def q map_add_def)
next
  case False
  have none: "map_of (map (\<lambda>(q, n). (new @ drop (length old) q, n))
                         (filter (\<lambda>(q, n). prefix old q) fs)) q = None"
    using False by (auto simp: map_of_eq_None_iff prefix_def)
  show ?thesis
    using False none
    by (simp add: move_def map_add_def map_of_filter_keys split: option.splits)
qed

lemma distinct_move:
  assumes "distinct (map fst fs)"
  shows "distinct (map fst (move fs old new))"
proof -
  let ?A = "filter (\<lambda>q. \<not> prefix old q \<and> \<not> prefix new q) (map fst fs)"
  let ?B = "filter (prefix old) (map fst fs)"
  let ?f = "\<lambda>q. new @ drop (length old) q"
  have keys: "map fst (move fs old new) = ?A @ map ?f ?B"
    by (simp add: move_def fst_filter_keys [symmetric] case_prod_unfold comp_def)
  have "inj_on ?f (set ?B)"
    by (auto simp: inj_on_def prefix_def)
  then have "distinct (map ?f ?B)"
    using assms by (simp add: distinct_map)
  moreover have "distinct ?A"
    using assms by simp
  moreover have "set ?A \<inter> set (map ?f ?B) = {}"
    by (auto simp: prefix_def)
  ultimately show ?thesis
    by (simp add: keys)
qed

lemma length_move: "length (move fs old new) \<le> length fs"
proof -
  have "length (filter (\<lambda>(q, n). \<not> prefix old q \<and> \<not> prefix new q) fs)
      \<le> length (filter (\<lambda>(q, n). \<not> prefix old q) fs)"
    by (induction fs) auto
  moreover have "length (filter (\<lambda>(q, n). \<not> prefix old q) fs)
      + length (filter (\<lambda>(q, n). prefix old q) fs) = length fs"
    by (induction fs) auto
  ultimately show ?thesis
    by (simp add: move_def)
qed

lemma distinct_entries:
  assumes "distinct (map fst fs)"
  shows "distinct (entries fs cs)"
proof -
  let ?K = "filter (\<lambda>q. q \<noteq> [] \<and> butlast q = cs) (map fst fs)"
  have e: "entries fs cs = map last ?K"
    by (simp add: entries_def fst_filter_keys [symmetric] case_prod_unfold comp_def)
  have "inj_on last (set ?K)"
  proof (rule inj_onI)
    fix x y assume "x \<in> set ?K" "y \<in> set ?K" "last x = last y"
    then have "butlast x @ [last x] = butlast y @ [last y]" by simp
    moreover have "x \<noteq> []" "y \<noteq> []" using \<open>x \<in> set ?K\<close> \<open>y \<in> set ?K\<close> by auto
    ultimately show "x = y" by simp
  qed
  then show ?thesis
    using assms by (simp add: e distinct_map)
qed

subsection \<open>Renaming and unlinking\<close>

lemma rename_cases:
  assumes "resolve fs oldPath = Inr (RegularFile b)"
    and "fs_rename fs oldPath newPath = Inr fs'"
  shows "getname newPath = None" and "walk fs [] (components newPath) = None"
    and "\<not> trailing_slash newPath" and "components newPath \<noteq> []"
    and "length (last (components newPath)) \<le> NAME_MAX"
    and "components oldPath = components newPath \<and> fs' = fs
         \<or> components oldPath \<noteq> components newPath
           \<and> fs' = move fs (components oldPath) (components newPath)"
proof -
  note o = resolve_InrD [OF assms(1)]
  show g: "getname newPath = None"
    using assms(2) unfolding fs_rename_def Let_def o(1) o(2)
    by (cases "getname newPath") simp_all
  show w: "walk fs [] (components newPath) = None"
    using assms(2) unfolding fs_rename_def Let_def o(1) o(2) g
    by (cases "walk fs [] (components newPath)") simp_all
  have r: "(if components oldPath = [] \<or> components newPath = [] then Inl EBUSY
      else
        if NAME_MAX < length (last (components newPath)) then Inl ENAMETOOLONG
        else if trailing_slash oldPath \<or> trailing_slash newPath then Inl ENOTDIR
        else if strict_prefix (components oldPath) (components newPath) then Inl EINVAL
        else if strict_prefix (components newPath) (components oldPath) then Inl ENOTEMPTY
        else if components oldPath = components newPath then Inr fs
        else
          (case map_of fs (components newPath) of
             None \<Rightarrow> Inr (move fs (components oldPath) (components newPath))
           | Some Directory \<Rightarrow> Inl EISDIR
           | Some m \<Rightarrow> Inr (move fs (components oldPath) (components newPath)))) = Inr fs'"
    using assms(2) unfolding fs_rename_def Let_def o(1) o(2) o(3) g w
    by (simp cong: if_cong option.case_cong node.case_cong)
  show "\<not> trailing_slash newPath"
    using r by (auto split: if_splits)
  show "components newPath \<noteq> []"
    using r by (auto split: if_splits)
  show "length (last (components newPath)) \<le> NAME_MAX"
    using r by (auto split: if_splits)
  show "components oldPath = components newPath \<and> fs' = fs
         \<or> components oldPath \<noteq> components newPath
           \<and> fs' = move fs (components oldPath) (components newPath)"
    using r by (auto split: if_splits option.splits node.splits)
qed

text \<open>A regular file that was renamed is found under its new name.\<close>

lemma rename_file:
  assumes old: "resolve fs oldPath = Inr (RegularFile b)"
    and ren: "fs_rename fs oldPath newPath = Inr fs'"
  shows "follow fs' newPath = Inr (RegularFile b)"
proof -
  let ?old = "components oldPath" and ?new = "components newPath"
  note o = resolve_regularD [OF old]
  note r = rename_cases [OF old ren]
  have "resolve fs' newPath = Inr (RegularFile b)"
  proof (cases "?old = ?new")
    case True
    then have "fs' = fs" using r(6) by auto
    then have "lookup_last fs' ?new = Inr (RegularFile b)"
      using o r(5) True by (simp add: lookup_last_def lookup_node_def)
    then show ?thesis
      using r \<open>fs' = fs\<close> by (simp add: resolve_InrI)
  next
    case False
    then have fs': "fs' = move fs ?old ?new" using r(6) by auto
    have not_below: "\<not> prefix ?old (take k ?new)" if "k < length ?new" for k
    proof
      assume p: "prefix ?old (take k ?new)"
      then have "length ?old \<le> k"
        by (auto dest: prefix_length_le)
      then have "?old \<noteq> ?new"
        using that by auto
      moreover have "prefix ?old ?new"
        using p take_is_prefix prefix_order.trans by blast
      ultimately have "strict_prefix ?old ?new"
        by (simp add: strict_prefix_def)
      then have "lookup_node fs ?old = Some Directory"
        using r(2) by (rule walk_through_directory [rotated])
      then show False
        using o(1,2) by (simp add: lookup_node_def)
    qed
    have same: "lookup_node fs' (take k ?new) = lookup_node fs (take k ?new)"
      if "k < length ?new" for k
    proof -
      have "\<not> prefix ?new (take k ?new)"
        using that by (auto dest: prefix_length_le)
      then show ?thesis
        using not_below [OF that] by (simp add: lookup_node_def fs' map_of_move)
    qed
    have w: "walk fs' [] ?new = None"
      using r(2) same by (auto intro: walk_preserved)
    have "lookup_node fs' ?new = Some (RegularFile b)"
      using r(4) o(2) by (simp add: lookup_node_def fs' map_of_move)
    then have "lookup_last fs' ?new = Inr (RegularFile b)"
      using r(5) by (simp add: lookup_last_def)
    then show ?thesis
      using r w by (simp add: resolve_InrI)
  qed
  then show ?thesis
    by (auto simp: follow_def resolve_def split: sum.splits if_splits)
qed

text \<open>Renaming a regular file onto a regular file succeeds, and adds no node.\<close>

lemma rename_onto_file:
  assumes "resolve fs oldPath = Inr (RegularFile b)"
    and "follow fs newPath = Inr (RegularFile b0)"
  shows "\<exists>fs'. fs_rename fs oldPath newPath = Inr fs' \<and> length fs' \<le> length fs"
proof -
  let ?old = "components oldPath" and ?new = "components newPath"
  note o = resolve_InrD [OF assms(1)] and od = resolve_regularD [OF assms(1)]
  note n = resolve_InrD [OF follow_regular [OF assms(2)]]
    and nd = resolve_regularD [OF follow_regular [OF assms(2)]]
  have 1: "\<not> strict_prefix ?old ?new"
  proof
    assume "strict_prefix ?old ?new"
    then have "lookup_node fs ?old = Some Directory"
      using n(2) by (rule walk_through_directory [rotated])
    then show False
      using od(1,2) by (simp add: lookup_node_def)
  qed
  have 2: "\<not> strict_prefix ?new ?old"
  proof
    assume "strict_prefix ?new ?old"
    then have "lookup_node fs ?new = Some Directory"
      using o(2) by (rule walk_through_directory [rotated])
    then show False
      using nd(1,2) by (simp add: lookup_node_def)
  qed
  show ?thesis
    unfolding fs_rename_def Let_def o(1) o(2) o(3) n(1) n(2)
    using 1 2 od nd by (simp add: length_move)
qed

text \<open>Renaming a regular file to a name that is free, in a directory that is there,
  succeeds.\<close>

lemma rename_fresh:
  assumes "resolve fs oldPath = Inr (RegularFile b)"
    and "getname newPath = None" and "walk fs [] (components newPath) = None"
    and "lookup_last fs (components newPath) = Inl ENOENT" and "\<not> trailing_slash newPath"
  shows "fs_rename fs oldPath newPath = Inr (move fs (components oldPath) (components newPath))"
proof -
  let ?old = "components oldPath" and ?new = "components newPath"
  note o = resolve_InrD [OF assms(1)] and od = resolve_regularD [OF assms(1)]
  have free: "lookup_node fs ?new = None"
    using assms(4) by (auto simp: lookup_last_def split: if_splits option.splits)
  then have ne: "?new \<noteq> []"
    by (auto simp: lookup_node_def)
  then have none: "map_of fs ?new = None" and short: "\<not> NAME_MAX < length (last ?new)"
    using free assms(4) by (auto simp: lookup_node_def lookup_last_def split: if_splits)
  have 1: "\<not> strict_prefix ?old ?new"
  proof
    assume "strict_prefix ?old ?new"
    then have "lookup_node fs ?old = Some Directory"
      using assms(3) by (rule walk_through_directory [rotated])
    then show False
      using od(1,2) by (simp add: lookup_node_def)
  qed
  have 2: "\<not> strict_prefix ?new ?old"
  proof
    assume "strict_prefix ?new ?old"
    then have "lookup_node fs ?new = Some Directory"
      using o(2) by (rule walk_through_directory [rotated])
    then show False
      using free by simp
  qed
  have 3: "?old \<noteq> ?new"
    using od(2) none by auto
  show ?thesis
    unfolding fs_rename_def Let_def o(1) o(2) o(3) assms(2) assms(3)
    using 1 2 3 od ne none short assms(5) by simp
qed

lemma distinct_rename:
  assumes "fs_rename fs a b = Inr fs'" and "distinct (map fst fs)"
  shows "distinct (map fst fs')"
proof -
  have "fs' = fs \<or> fs' = move fs (components a) (components b)"
    using assms(1)
    by (auto simp: fs_rename_def Let_def split: sum.splits if_splits option.splits node.splits)
  then show ?thesis
    using assms(2) by (auto simp: distinct_move)
qed

lemma distinct_unlink:
  "fs_unlink fs p = Inr fs' \<Longrightarrow> distinct (map fst fs) \<Longrightarrow> distinct (map fst fs')"
  by (auto simp: fs_unlink_def fst_filter_keys split: sum.splits node.splits)

text \<open>What was unlinked cannot be inspected afterwards.\<close>

lemma unlink_gone:
  assumes "fs_unlink fs p = Inr fs'"
  shows "\<exists>e. follow fs' p = Inl e"
proof -
  from assms obtain n where n: "resolve fs p = Inr n" "n \<noteq> Directory"
    and fs': "fs' = filter (\<lambda>(q, m). q \<noteq> components p) fs"
    by (auto simp: fs_unlink_def split: sum.splits node.splits)
  have "components p \<noteq> []"
    using resolve_InrD(4) [OF n(1)] n(2) by (auto simp: lookup_node_def split: if_splits)
  then have "lookup_node fs' (components p) = None"
    by (simp add: lookup_node_def fs' map_of_without)
  then have "\<exists>e. locate fs' p = Inl e"
    by (simp add: locate_def lookup_last_def split: option.splits)
  then show ?thesis
    by (auto simp: follow_def)
qed

subsection \<open>The handlers\<close>

lemma listed_files:
  "listed (Json (JObject [(''success'', JBool True), (''files'', JArray (map JString xs))])) = xs"
  by (induction xs) (simp_all add: listed_def json_field_def)

lemma not_listed:
  assumes "follow fs (path_join [UPLOAD_DIR dirname, name]) = Inl e"
    and "listing_handler dirname res fs = Responded r fs'"
  shows "name \<notin> set (listed (body r))"
proof (cases "fs_readdir fs (UPLOAD_DIR dirname)")
  case (Inl err)
  then show ?thesis
    using assms(2) by (auto simp: listing_handler_def respond_def listed_def json_field_def)
next
  case (Inr es)
  then have "listed (body r) = fileNames dirname fs es"
    using assms(2) by (auto simp: listing_handler_def respond_def listed_files)
  then show ?thesis
    using assms(1) by (simp add: fileNames_def fs_statSync_def)
qed

lemma listing_distinct:
  assumes "listing_handler dirname res fs = Responded r fs'" and "distinct (map fst fs)"
  shows "distinct (listed (body r))"
proof (cases "fs_readdir fs (UPLOAD_DIR dirname)")
  case (Inl e)
  then show ?thesis
    using assms(1) by (auto simp: listing_handler_def respond_def listed_def json_field_def)
next
  case (Inr es)
  then have "es = sort (entries fs (components (UPLOAD_DIR dirname)))"
    by (auto simp: fs_readdir_def split: sum.splits node.splits)
  then have "distinct es"
    using assms(2) by (simp add: distinct_entries)
  moreover have "listed (body r) = fileNames dirname fs es"
    using Inr assms(1) by (auto simp: listing_handler_def respond_def listed_files)
  ultimately show ?thesis
    by (simp add: fileNames_def)
qed

text \<open>The listing is in the order of \<^verbatim>\<open>strcmp\<close>.\<close>

lemma listing_sorted:
  assumes "listing_handler dirname res fs = Responded r fs'"
  shows "sorted (listed (body r))"
proof (cases "fs_readdir fs (UPLOAD_DIR dirname)")
  case (Inl e)
  then show ?thesis
    using assms by (auto simp: listing_handler_def respond_def listed_def json_field_def)
next
  case (Inr es)
  then have "es = sort (entries fs (components (UPLOAD_DIR dirname)))"
    by (auto simp: fs_readdir_def split: sum.splits node.splits)
  then have "sorted es"
    by simp
  moreover have "listed (body r) = fileNames dirname fs es"
    using Inr assms by (auto simp: listing_handler_def respond_def listed_files)
  ultimately show ?thesis
    by (simp add: fileNames_def sorted_wrt_filter)
qed

lemma download_regular:
  assumes "startsWith (req_url req) ''/download/''" and "req_method req = ''GET''"
    and "decodeURIComponent (pop (split (CHR ''/'') (req_url req))) = Inr name"
    and "nullCheck (path_join [UPLOAD_DIR dirname, name]) = None"
    and "\<not> checkInvalidHeaderChar name"
    and "follow fs (path_join [UPLOAD_DIR dirname, name]) = Inr (RegularFile b)"
  shows "server dirname fs req =
           Responded
             (respond cors 200
                [(''Content-Type'', ''application/octet-stream''),
                 (''Content-Disposition'',
                  ''attachment; filename='' @ [CHR 0x22] @ name @ [CHR 0x22])]
                (Raw b))
             fs"
proof -
  have "validateHeaderValue (''attachment; filename='' @ [CHR 0x22] @ name @ [CHR 0x22]) = None"
    unfolding disposition_valid using assms(5) by (simp add: validateHeaderValue_def)
  then show ?thesis
    unfolding download_route [OF assms(1,2)] download_handler_def assms(3) Let_def
    using assms(4,6) by (simp add: fs_access_def fs_createReadStream_def fs_readFile_def)
qed

lemma upload_ok:
  assumes "upload_handler dirname res fs (Parsed files) = Responded r fs'"
    and "uploadedFile files = Some f" and "status r = 200"
  shows "\<exists>name. originalFilename f = Some name
           \<and> nullCheck (path_join [UPLOAD_DIR dirname, name]) = None
           \<and> fs_rename fs (filepath f) (path_join [UPLOAD_DIR dirname, name]) = Inr fs'"
  using assms
  by (auto simp: upload_handler_def Let_def respond_def split: sum.splits option.splits)

lemma server_distinct:
  assumes "server dirname fs req = Responded r fs'" and "distinct (map fst fs)"
  shows "distinct (map fst fs')"
proof -
  have up: "upload_handler dirname cors fs p = Responded r fs' \<Longrightarrow> distinct (map fst fs')" for p
    using assms(2)
    by (auto simp: upload_handler_def Let_def split: parsed.splits option.splits sum.splits
        dest: distinct_rename)
  have del: "delete_handler dirname cors fs u = Responded r fs' \<Longrightarrow> distinct (map fst fs')" for u
    using assms(2)
    by (auto simp: delete_handler_def Let_def split: sum.splits option.splits if_splits
        dest: distinct_unlink)
  have ls: "listing_handler dirname cors fs = Responded r fs' \<Longrightarrow> fs' = fs"
    by (auto simp: listing_handler_def split: sum.splits)
  have dl: "download_handler dirname cors fs u = Responded r fs' \<Longrightarrow> fs' = fs" for u
    by (auto simp: download_handler_def Let_def split: sum.splits option.splits)
  have st: "static_handler dirname cors fs u = Responded r fs' \<Longrightarrow> fs' = fs" for u
    by (auto simp: static_handler_def Let_def split: sum.splits if_splits)
  show ?thesis
    using assms up del ls dl st
    by (auto simp: server_def split: if_splits)
qed

text \<open>
  A name without \<^verbatim>\<open>%\<close> and \<^verbatim>\<open>/\<close> is its own percent-encoding as far as the
  download and delete routes read it: the request for \<^verbatim>\<open>/download/N\<close> names \<open>N\<close>.
\<close>

lemma decode_plain: "CHR ''%'' \<notin> set s \<Longrightarrow> decode 0 octs s = Some s"
proof (induction s arbitrary: octs)
  case Nil
  show ?case by simp
next
  case (Cons c cs)
  then have ih: "decode 0 [] cs = Some cs" and c: "c \<noteq> CHR ''%''"
    by auto
  show ?case
  proof (cases cs)
    case Nil
    then show ?thesis using c by simp
  next
    case (Cons h1 t)
    then show ?thesis using c ih by (cases t) simp_all
  qed
qed

lemma split_plain: "c \<notin> set s \<Longrightarrow> split c s = [s]"
  by (induction s) auto

lemma split_nonempty: "split c s \<noteq> []"
  by (cases s) (simp_all add: Let_def)

lemma length_split_Cons:
  "length (split c (x # xs)) = (if x = c then Suc (length (split c xs)) else length (split c xs))"
  using split_nonempty [of c xs] by (cases "split c xs") (simp_all add: Let_def)

lemma split_longer: "2 \<le> length (split c (p @ c # s))"
proof (induction p)
  case Nil
  have "Suc 0 \<le> length (split c s)"
    using split_nonempty [of c s] by (cases "split c s") simp_all
  then show ?case
    by (simp add: length_split_Cons del: split.simps)
next
  case (Cons x p)
  then show ?case
    by (simp add: length_split_Cons del: split.simps)
qed

lemma last_split: "last (split c (p @ c # s)) = last (split c s)"
proof (induction p)
  case Nil
  then show ?case
    using split_nonempty [of c s] by simp
next
  case (Cons x p)
  obtain a b r where r: "split c (p @ c # s) = a # b # r"
    using split_longer [of c p s]
    by (cases "split c (p @ c # s)"; cases "tl (split c (p @ c # s))") auto
  show ?case
    using Cons.IH by (simp add: r Let_def)
qed

lemma plain_name:
  assumes "CHR ''%'' \<notin> set N" and "CHR ''/'' \<notin> set N"
  shows "decodeURIComponent (pop (split (CHR ''/'') (''/download/'' @ N))) = Inr N"
    and "decodeURIComponent (pop (split (CHR ''/'') (''/delete/'' @ N))) = Inr N"
proof -
  have "pop (split (CHR ''/'') (''/download'' @ CHR ''/'' # N)) = N"
    unfolding pop_def last_split using assms(2) by (simp add: split_plain)
  then show "decodeURIComponent (pop (split (CHR ''/'') (''/download/'' @ N))) = Inr N"
    using assms(1) by (simp add: decodeURIComponent_def decode_plain)
  have "pop (split (CHR ''/'') (''/delete'' @ CHR ''/'' # N)) = N"
    unfolding pop_def last_split using assms(2) by (simp add: split_plain)
  then show "decodeURIComponent (pop (split (CHR ''/'') (''/delete/'' @ N))) = Inr N"
    using assms(1) by (simp add: decodeURIComponent_def decode_plain)
qed

subsection \<open>Decoding what \<^verbatim>\<open>encodeURIComponent\<close> encoded\<close>

lemma hex_digit_char: "\<forall>k \<in> set [0..<16]. hex_digit (hex_char k) = Some k"
  by code_simp

lemma hex_octet_escape:
  assumes "b < 256"
  shows "hex_octet (hex_char (b div 16)) (hex_char (b mod 16)) = Some b"
proof -
  have "b div 16 < 16" and "b mod 16 < 16"
    using assms by simp_all
  then have "hex_digit (hex_char (b div 16)) = Some (b div 16)"
    and "hex_digit (hex_char (b mod 16)) = Some (b mod 16)"
    using hex_digit_char by simp_all
  then show ?thesis
    by (simp add: hex_octet_def)
qed

lemma unreserved_ascii:
  assumes "unreserved c"
  shows "(of_char c :: nat) < 128" and "c \<noteq> CHR ''%''" and "c \<noteq> CHR ''/''"
  using assms by (auto simp: unreserved_def Let_def)

lemma decode_char:
  "c \<noteq> CHR ''%'' \<Longrightarrow>
   decode 0 octs (c # cs) = (case decode 0 [] cs of None \<Rightarrow> None | Some r \<Rightarrow> Some (c # r))"
proof (cases cs)
  case Nil
  then show "c \<noteq> CHR ''%'' \<Longrightarrow> ?thesis" by simp
next
  case (Cons h1 t)
  then show "c \<noteq> CHR ''%'' \<Longrightarrow> ?thesis" by (cases t) simp_all
qed

lemma decode_escape_ascii:
  assumes "b < 128"
  shows "decode 0 octs (escape b @ rest) =
     (case decode 0 [] rest of None \<Rightarrow> None | Some r \<Rightarrow> Some (char_of b # r))"
  using assms hex_octet_escape [of b]
  by (simp add: escape_def leading_ones_def)

lemma decode_escape_lead:
  assumes "128 \<le> b" and "b < 256" and "leading_ones b \<noteq> 1" and "leading_ones b \<le> 4"
  shows "decode 0 octs (escape b @ rest) = decode (leading_ones b - 1) [b] rest"
proof -
  have "leading_ones b \<noteq> 0"
    using assms(1) by (simp add: leading_ones_def)
  then show ?thesis
    using assms hex_octet_escape [of b] by (simp add: escape_def Let_def)
qed

lemma decode_escape_more:
  assumes "b < 256"
  shows "decode (Suc (Suc j)) octs (escape b @ rest) = decode (Suc j) (octs @ [b]) rest"
  using assms hex_octet_escape [of b] by (simp add: escape_def)

lemma decode_escape_last:
  assumes "b < 256" and "valid_utf8 (octs @ [b])"
  shows "decode (Suc 0) octs (escape b @ rest) =
     (case decode 0 [] rest of None \<Rightarrow> None | Some r \<Rightarrow> Some (map char_of (octs @ [b]) @ r))"
  using assms hex_octet_escape [of b] by (simp add: escape_def)

lemma high_not_unreserved: "128 \<le> (of_char c :: nat) \<Longrightarrow> \<not> unreserved c"
  using unreserved_ascii(1) [of c] by auto

lemma encode_append:
  "encodeURIComponent (s @ t) = encodeURIComponent s @ encodeURIComponent t"
  by (simp add: encodeURIComponent_def)

lemma encode_high:
  "128 \<le> (of_char c :: nat) \<Longrightarrow> encodeURIComponent (c # s) = escape (of_char c) @ encodeURIComponent s"
  by (simp add: encodeURIComponent_def high_not_unreserved)

lemma decode_encode_multi:
  assumes "valid_utf8 (map of_char cs)"
  shows "decode 0 octs (encodeURIComponent cs @ rest) =
     (case decode 0 [] rest of None \<Rightarrow> None | Some r \<Rightarrow> Some (cs @ r))"
proof -
  have lt: "(of_char c :: nat) < 256" for c
    by (rule nat_of_char_less_256)
  consider (two) c1 c2 where "cs = [c1, c2]"
    | (three) c1 c2 c3 where "cs = [c1, c2, c3]"
    | (four) c1 c2 c3 c4 where "cs = [c1, c2, c3, c4]"
    using assms by (cases "map of_char cs :: nat list" rule: valid_utf8.cases) auto
  then show ?thesis
  proof cases
    case two
    let ?b1 = "of_char c1 :: nat" and ?b2 = "of_char c2 :: nat"
    have v: "valid_utf8 [?b1, ?b2]" using assms two by simp
    then have hi: "128 \<le> ?b1" "128 \<le> ?b2" and n: "leading_ones ?b1 = 2"
      by (auto simp: continuation_def leading_ones_def)
    have "decode 0 octs (escape ?b1 @ escape ?b2 @ rest) = decode (Suc 0) [?b1] (escape ?b2 @ rest)"
      using decode_escape_lead [of ?b1 octs "escape ?b2 @ rest"] hi lt n by simp
    also have "\<dots> = (case decode 0 [] rest of None \<Rightarrow> None
                      | Some r \<Rightarrow> Some (map char_of ([?b1] @ [?b2]) @ r))"
      using v by (intro decode_escape_last lt) simp
    finally show ?thesis
      using hi by (simp add: two high_not_unreserved encodeURIComponent_def del: decode.simps
          cong: option.case_cong)
  next
    case three
    let ?b1 = "of_char c1 :: nat" and ?b2 = "of_char c2 :: nat" and ?b3 = "of_char c3 :: nat"
    have v: "valid_utf8 [?b1, ?b2, ?b3]" using assms three by simp
    then have hi: "128 \<le> ?b1" "128 \<le> ?b2" "128 \<le> ?b3" and n: "leading_ones ?b1 = 3"
      by (auto simp: continuation_def leading_ones_def)
    have "decode 0 octs (escape ?b1 @ escape ?b2 @ escape ?b3 @ rest)
        = decode (Suc (Suc 0)) [?b1] (escape ?b2 @ escape ?b3 @ rest)"
      using decode_escape_lead [of ?b1 octs "escape ?b2 @ escape ?b3 @ rest"] hi lt n
      by (simp add: numeral_2_eq_2)
    also have "\<dots> = decode (Suc 0) ([?b1] @ [?b2]) (escape ?b3 @ rest)"
      by (intro decode_escape_more lt)
    also have "\<dots> = (case decode 0 [] rest of None \<Rightarrow> None
                      | Some r \<Rightarrow> Some (map char_of (([?b1] @ [?b2]) @ [?b3]) @ r))"
      using v by (intro decode_escape_last lt) simp
    finally show ?thesis
      using hi by (simp add: three high_not_unreserved encodeURIComponent_def del: decode.simps
          cong: option.case_cong)
  next
    case four
    let ?b1 = "of_char c1 :: nat" and ?b2 = "of_char c2 :: nat" and ?b3 = "of_char c3 :: nat"
      and ?b4 = "of_char c4 :: nat"
    have v: "valid_utf8 [?b1, ?b2, ?b3, ?b4]" using assms four by simp
    then have hi: "128 \<le> ?b1" "128 \<le> ?b2" "128 \<le> ?b3" "128 \<le> ?b4"
      and n: "leading_ones ?b1 = 4"
      by (auto simp: continuation_def leading_ones_def)
    have "decode 0 octs (escape ?b1 @ escape ?b2 @ escape ?b3 @ escape ?b4 @ rest)
        = decode (Suc (Suc (Suc 0))) [?b1] (escape ?b2 @ escape ?b3 @ escape ?b4 @ rest)"
      using decode_escape_lead [of ?b1 octs "escape ?b2 @ escape ?b3 @ escape ?b4 @ rest"] hi lt n
      by (simp add: numeral_3_eq_3)
    also have "\<dots> = decode (Suc (Suc 0)) ([?b1] @ [?b2]) (escape ?b3 @ escape ?b4 @ rest)"
      by (intro decode_escape_more lt)
    also have "\<dots> = decode (Suc 0) (([?b1] @ [?b2]) @ [?b3]) (escape ?b4 @ rest)"
      by (intro decode_escape_more lt)
    also have "\<dots> = (case decode 0 [] rest of None \<Rightarrow> None
                      | Some r \<Rightarrow> Some (map char_of ((([?b1] @ [?b2]) @ [?b3]) @ [?b4]) @ r))"
      using v by (intro decode_escape_last lt) simp
    finally show ?thesis
      using hi by (simp add: four high_not_unreserved encodeURIComponent_def del: decode.simps
          cong: option.case_cong)
  qed
qed

lemma encode_Cons:
  "encodeURIComponent (c # s) =
     (if unreserved c then [c] else escape (of_char c)) @ encodeURIComponent s"
  by (simp add: encodeURIComponent_def)

lemma decode_encode: "utf8 s \<Longrightarrow> decode 0 octs (encodeURIComponent s) = Some s"
proof (induction s arbitrary: octs rule: utf8.induct)
  case empty
  show ?case by (simp add: encodeURIComponent_def)
next
  case (ascii c s)
  have ih: "decode 0 [] (encodeURIComponent s) = Some s"
    by (rule ascii.IH)
  show ?case
  proof (cases "unreserved c")
    case True
    then have "c \<noteq> CHR ''%''"
      by (rule unreserved_ascii(2))
    then have "decode 0 octs (c # encodeURIComponent s) = Some (c # s)"
      using decode_char [of c octs "encodeURIComponent s"] ih by simp
    then show ?thesis
      using True by (simp only: encode_Cons if_True append.simps)
  next
    case False
    have "decode 0 octs (escape (of_char c) @ encodeURIComponent s)
        = Some (char_of (of_char c :: nat) # s)"
      using ascii.hyps(1) by (simp only: decode_escape_ascii ih option.case)
    then show ?thesis
      using False by (simp only: encode_Cons if_False char_of_char)
  qed
next
  case (multi cs s)
  have ih: "decode 0 [] (encodeURIComponent s) = Some s"
    by (rule multi.IH)
  show ?case
    using multi.hyps(1) by (simp only: encode_append decode_encode_multi ih option.case)
qed

lemma escape_no_slash: "CHR ''/'' \<notin> set (escape (of_char c))"
proof -
  have h: "hex_char k \<noteq> CHR ''/''" if "k < 16" for k
  proof -
    have "\<forall>k \<in> set [0..<16]. hex_char k \<noteq> CHR ''/''" by code_simp
    then show ?thesis using that by simp
  qed
  have "(of_char c :: nat) < 256"
    by (rule nat_of_char_less_256)
  then have "(of_char c :: nat) div 16 < 16" and "(of_char c :: nat) mod 16 < 16"
    by (simp_all add: less_mult_imp_div_less)
  then have "hex_char (of_char c div 16) \<noteq> CHR ''/''" and "hex_char (of_char c mod 16) \<noteq> CHR ''/''"
    using h by blast+
  then show ?thesis
    by (simp add: escape_def)
qed

lemma encode_no_slash: "CHR ''/'' \<notin> set (encodeURIComponent s)"
proof (induction s)
  case Nil
  show ?case by (simp add: encodeURIComponent_def)
next
  case (Cons c s)
  show ?case
  proof (cases "unreserved c")
    case True
    then have "c \<noteq> CHR ''/''"
      by (rule unreserved_ascii(3))
    then show ?thesis
      using True Cons.IH by (simp add: encode_Cons)
  next
    case False
    then show ?thesis
      using Cons.IH escape_no_slash [of c] by (simp add: encode_Cons)
  qed
qed

text \<open>The URLs the client page builds name the file they were built from.\<close>

lemma client_url:
  assumes "utf8 N"
  shows "decodeURIComponent (pop (split (CHR ''/'') (''/download/'' @ encodeURIComponent N))) = Inr N"
    and "decodeURIComponent (pop (split (CHR ''/'') (''/delete/'' @ encodeURIComponent N))) = Inr N"
proof -
  have "pop (split (CHR ''/'') (''/download'' @ CHR ''/'' # encodeURIComponent N)) = encodeURIComponent N"
    unfolding pop_def last_split using encode_no_slash by (simp add: split_plain)
  then show "decodeURIComponent (pop (split (CHR ''/'') (''/download/'' @ encodeURIComponent N))) = Inr N"
    using assms by (simp add: decodeURIComponent_def decode_encode)
  have "pop (split (CHR ''/'') (''/delete'' @ CHR ''/'' # encodeURIComponent N)) = encodeURIComponent N"
    unfolding pop_def last_split using encode_no_slash by (simp add: split_plain)
  then show "decodeURIComponent (pop (split (CHR ''/'') (''/delete/'' @ encodeURIComponent N))) = Inr N"
    using assms by (simp add: decodeURIComponent_def decode_encode)
qed

subsection \<open>Uploads, downloads and deletions that are answered\<close>

text \<open>
  The upload of a staged regular file under a name that is free, in a directory that is
  there, is answered with 200 and stores the bytes under that name.
\<close>

lemma upload_fresh:
  assumes "req_url up = ''/upload''" and "req_method up = ''POST''"
    and "req_form up = Parsed files" and "uploadedFile files = Some f"
    and "originalFilename f = Some N"
    and "resolve fs (filepath f) = Inr (RegularFile B)"
    and "nullCheck (filepath f) = None"
    and "nullCheck (path_join [UPLOAD_DIR dirname, N]) = None"
    and "getname (path_join [UPLOAD_DIR dirname, N]) = None"
    and "walk fs [] (components (path_join [UPLOAD_DIR dirname, N])) = None"
    and "lookup_last fs (components (path_join [UPLOAD_DIR dirname, N])) = Inl ENOENT"
    and "\<not> trailing_slash (path_join [UPLOAD_DIR dirname, N])"
  shows "\<exists>fs'. server dirname fs up =
           Responded
             (respond cors 200 [(''Content-Type'', ''application/json'')]
                (Json (JObject [(''success'', JBool True),
                                (''message'', JString ''File uploaded successfully!''),
                                (''fileName'', JString N)])))
             fs'
         \<and> follow fs' (path_join [UPLOAD_DIR dirname, N]) = Inr (RegularFile B)"
proof -
  let ?P = "path_join [UPLOAD_DIR dirname, N]"
  let ?fs' = "move fs (components (filepath f)) (components ?P)"
  have ren: "fs_rename fs (filepath f) ?P = Inr ?fs'"
    using assms(6,9-12) by (rule rename_fresh)
  then have "follow ?fs' ?P = Inr (RegularFile B)"
    using assms(6) rename_file by blast
  moreover have "server dirname fs up =
      Responded
        (respond cors 200 [(''Content-Type'', ''application/json'')]
           (Json (JObject [(''success'', JBool True),
                           (''message'', JString ''File uploaded successfully!''),
                           (''fileName'', JString N)])))
        ?fs'"
    using assms(1-5,7,8) ren by (simp add: upload_route upload_handler_def Let_def)
  ultimately show ?thesis
    by blast
qed

text \<open>The same upload under the name of a stored regular file is answered with 200 as
  well, adds no node, and leaves the new bytes under the name.\<close>

lemma upload_over:
  assumes "req_url up = ''/upload''" and "req_method up = ''POST''"
    and "req_form up = Parsed files" and "uploadedFile files = Some f"
    and "originalFilename f = Some N"
    and "resolve fs (filepath f) = Inr (RegularFile new_bytes)"
    and "nullCheck (filepath f) = None"
    and "nullCheck (path_join [UPLOAD_DIR dirname, N]) = None"
    and "follow fs (path_join [UPLOAD_DIR dirname, N]) = Inr (RegularFile old_bytes)"
  shows "\<exists>fs'. server dirname fs up =
           Responded
             (respond cors 200 [(''Content-Type'', ''application/json'')]
                (Json (JObject [(''success'', JBool True),
                                (''message'', JString ''File uploaded successfully!''),
                                (''fileName'', JString N)])))
             fs'
         \<and> length fs' \<le> length fs
         \<and> follow fs' (path_join [UPLOAD_DIR dirname, N]) = Inr (RegularFile new_bytes)"
proof -
  let ?P = "path_join [UPLOAD_DIR dirname, N]"
  from assms(6,9) obtain fs' where ren: "fs_rename fs (filepath f) ?P = Inr fs'"
    and len: "length fs' \<le> length fs"
    using rename_onto_file by blast
  have "follow fs' ?P = Inr (RegularFile new_bytes)"
    using assms(6) ren by (rule rename_file)
  moreover have "server dirname fs up =
      Responded
        (respond cors 200 [(''Content-Type'', ''application/json'')]
           (Json (JObject [(''success'', JBool True),
                           (''message'', JString ''File uploaded successfully!''),
                           (''fileName'', JString N)])))
        fs'"
    using assms(1-5,7,8) ren by (simp add: upload_route upload_handler_def Let_def)
  ultimately show ?thesis
    using len by blast
qed

text \<open>
  The round trip, for the names \<^verbatim>\<open>writeHead\<close> accepts: when the upload of the
  staged bytes \<open>B\<close> under the name \<open>N\<close> was answered with 200, and \<open>N\<close> has only
  characters a header value may hold, every \<^verbatim>\<open>GET /download/...\<close> whose final
  segment percent-decodes to \<open>N\<close> is answered with 200 and the body \<open>B\<close>. By
  \<open>client_url\<close> the URL the client page builds is such a request; by \<open>upload_fresh\<close>
  and \<open>upload_over\<close> such uploads are answered with 200.
\<close>

lemma roundtrip:
  assumes "req_url up = ''/upload''" and "req_method up = ''POST''"
    and "req_form up = Parsed files" and "uploadedFile files = Some f"
    and "originalFilename f = Some N"
    and "resolve fs (filepath f) = Inr (RegularFile B)"
    and "server dirname fs up = Responded r fs'" and "status r = 200"
    and "startsWith (req_url down) ''/download/''" and "req_method down = ''GET''"
    and "decodeURIComponent (pop (split (CHR ''/'') (req_url down))) = Inr N"
    and "\<not> checkInvalidHeaderChar N"
  shows "server dirname fs' down =
           Responded
             (respond cors 200
                [(''Content-Type'', ''application/octet-stream''),
                 (''Content-Disposition'', ''attachment; filename='' @ [CHR 0x22] @ N @ [CHR 0x22])]
                (Raw B))
             fs'"
proof -
  have "upload_handler dirname cors fs (Parsed files) = Responded r fs'"
    using assms(1,2,3,7) by (simp add: upload_route)
  then have nul: "nullCheck (path_join [UPLOAD_DIR dirname, N]) = None"
    and ren: "fs_rename fs (filepath f) (path_join [UPLOAD_DIR dirname, N]) = Inr fs'"
    using upload_ok [of dirname cors fs files r fs' f] assms(4,5,8) by auto
  have "follow fs' (path_join [UPLOAD_DIR dirname, N]) = Inr (RegularFile B)"
    using assms(6) ren by (rule rename_file)
  with assms(9-11) nul assms(12) show ?thesis
    by (rule download_regular)
qed

text \<open>
  So a fresh upload comes back: the staged bytes \<open>B\<close>, uploaded under a name \<open>N\<close>
  that is free in a storage directory that is there, are the body of the answer to the
  \<^verbatim>\<open>GET /download/...\<close> that follows, when \<open>N\<close> has only characters a
  header value may hold.
\<close>

lemma roundtrip_fresh:
  assumes "req_url up = ''/upload''" and "req_method up = ''POST''"
    and "req_form up = Parsed files" and "uploadedFile files = Some f"
    and "originalFilename f = Some N"
    and "resolve fs (filepath f) = Inr (RegularFile B)"
    and "nullCheck (filepath f) = None"
    and "nullCheck (path_join [UPLOAD_DIR dirname, N]) = None"
    and "getname (path_join [UPLOAD_DIR dirname, N]) = None"
    and "walk fs [] (components (path_join [UPLOAD_DIR dirname, N])) = None"
    and "lookup_last fs (components (path_join [UPLOAD_DIR dirname, N])) = Inl ENOENT"
    and "\<not> trailing_slash (path_join [UPLOAD_DIR dirname, N])"
    and "startsWith (req_url down) ''/download/''" and "req_method down = ''GET''"
    and "decodeURIComponent (pop (split (CHR ''/'') (req_url down))) = Inr N"
    and "\<not> checkInvalidHeaderChar N"
  shows "\<exists>fs'. server dirname fs up =
           Responded
             (respond cors 200 [(''Content-Type'', ''application/json'')]
                (Json (JObject [(''success'', JBool True),
                                (''message'', JString ''File uploaded successfully!''),
                                (''fileName'', JString N)])))
             fs'
         \<and> server dirname fs' down =
             Responded
               (respond cors 200
                  [(''Content-Type'', ''application/octet-stream''),
                   (''Content-Disposition'',
                    ''attachment; filename='' @ [CHR 0x22] @ N @ [CHR 0x22])]
                  (Raw B))
               fs'"
proof -
  from upload_fresh [OF assms(1-12)]
  obtain fs' where up: "server dirname fs up =
           Responded
             (respond cors 200 [(''Content-Type'', ''application/json'')]
                (Json (JObject [(''success'', JBool True),
                                (''message'', JString ''File uploaded successfully!''),
                                (''fileName'', JString N)])))
             fs'"
    and stored: "follow fs' (path_join [UPLOAD_DIR dirname, N]) = Inr (RegularFile B)"
    by blast
  from assms(13-15) assms(8) assms(16) stored
  have "server dirname fs' down =
             Responded
               (respond cors 200
                  [(''Content-Type'', ''application/octet-stream''),
                   (''Content-Disposition'',
                    ''attachment; filename='' @ [CHR 0x22] @ N @ [CHR 0x22])]
                  (Raw B))
               fs'"
    by (rule download_regular)
  with up show ?thesis
    by blast
qed

text \<open>On the example deployment: the staged bytes 9, 9, uploaded as \<^verbatim>\<open>b.txt\<close>,
  a name that is free, come back from \<^verbatim>\<open>GET /download/b.txt\<close>.\<close>

lemma roundtrip_example:
  "\<exists>fs'. server ''/app'' example_fs (upload_as ''b.txt'') =
           Responded
             (respond cors 200 [(''Content-Type'', ''application/json'')]
                (Json (JObject [(''success'', JBool True),
                                (''message'', JString ''File uploaded successfully!''),
                                (''fileName'', JString ''b.txt'')])))
             fs'
         \<and> server ''/app'' fs' (request ''GET'' ''/download/b.txt'') =
             Responded
               (respond cors 200
                  [(''Content-Type'', ''application/octet-stream''),
                   (''Content-Disposition'',
                    ''attachment; filename='' @ [CHR 0x22] @ ''b.txt'' @ [CHR 0x22])]
                  (Raw [9, 9]))
               fs'"
proof (rule roundtrip_fresh)
  let ?f = "\<lparr>filepath = ''/app/uploads/upload_1'', originalFilename = Some ''b.txt''\<rparr>"
  show "req_url (upload_as ''b.txt'') = ''/upload''" and "req_method (upload_as ''b.txt'') = ''POST''"
    and "req_form (upload_as ''b.txt'') = Parsed (FileArray [?f])"
    by (simp_all add: upload_as_def)
  show "uploadedFile (FileArray [?f]) = Some ?f" and "originalFilename ?f = Some ''b.txt''"
    by simp_all
  show "resolve example_fs (filepath ?f) = Inr (RegularFile [9, 9])"
    by code_simp
  show "nullCheck (filepath ?f) = None"
    by code_simp
  show "nullCheck (path_join [UPLOAD_DIR ''/app'', ''b.txt'']) = None"
    by code_simp
  show "getname (path_join [UPLOAD_DIR ''/app'', ''b.txt'']) = None"
    by code_simp
  show "walk example_fs [] (components (path_join [UPLOAD_DIR ''/app'', ''b.txt''])) = None"
    by code_simp
  show "lookup_last example_fs (components (path_join [UPLOAD_DIR ''/app'', ''b.txt''])) = Inl ENOENT"
    by code_simp
  show "\<not> trailing_slash (path_join [UPLOAD_DIR ''/app'', ''b.txt''])"
    by code_simp
  show "startsWith (req_url (request ''GET'' ''/download/b.txt'')) ''/download/''"
    by code_simp
  show "req_method (request ''GET'' ''/download/b.txt'') = ''GET''"
    by (simp add: request_def)
  show "decodeURIComponent (pop (split (CHR ''/'') (req_url (request ''GET'' ''/download/b.txt''))))
      = Inr ''b.txt''"
    by code_simp
  show "\<not> checkInvalidHeaderChar ''b.txt''"
    by code_simp
qed

text \<open>
  The answers to \<^verbatim>\<open>POST /upload\<close>. When the listener answers, it answers with
  JSON, and: the status is 500 exactly when parsing failed or the move to the final
  path failed, and then the body has \<^verbatim>\<open>success: false\<close> and a diagnostic under
  \<^verbatim>\<open>error\<close>; the status is 400 exactly when parsing succeeded and no file stands
  under \<^verbatim>\<open>myFile\<close>, and then the body has \<^verbatim>\<open>success: false\<close> and no
  \<^verbatim>\<open>error\<close>; otherwise the status is 200 and the body has
  \<^verbatim>\<open>success: true\<close> and the original name of the file under
  \<^verbatim>\<open>fileName\<close>.
\<close>

lemma upload_answers:
  assumes "req_url req = ''/upload''" and "req_method req = ''POST''"
    and "server dirname fs req = Responded r fs'"
  shows "header ''Content-Type'' r = Some ''application/json''"
    and "status r = 500 \<longleftrightarrow>
          (\<exists>m. req_form req = ParseError m)
          \<or> (\<exists>mf f N e. req_form req = Parsed mf \<and> uploadedFile mf = Some f
               \<and> originalFilename f = Some N
               \<and> fs_rename fs (filepath f) (path_join [UPLOAD_DIR dirname, N]) = Inl e)"
    and "status r = 400 \<longleftrightarrow> (\<exists>mf. req_form req = Parsed mf \<and> uploadedFile mf = None)"
    and "status r = 500 \<Longrightarrow>
          json_field ''success'' (body r) = Some (JBool False)
          \<and> (\<exists>m. json_field ''error'' (body r) = Some (JString m))"
    and "status r = 400 \<Longrightarrow>
          json_field ''success'' (body r) = Some (JBool False)
          \<and> json_field ''error'' (body r) = None"
    and "status r \<noteq> 500 \<Longrightarrow> status r \<noteq> 400 \<Longrightarrow>
          status r = 200
          \<and> json_field ''success'' (body r) = Some (JBool True)
          \<and> (\<exists>mf f N. req_form req = Parsed mf \<and> uploadedFile mf = Some f
               \<and> originalFilename f = Some N
               \<and> json_field ''fileName'' (body r) = Some (JString N))"
proof -
  have h: "upload_handler dirname cors fs (req_form req) = Responded r fs'"
    using assms by (simp add: upload_route)
  have all: "header ''Content-Type'' r = Some ''application/json''
    \<and> (status r = 500 \<longleftrightarrow>
          (\<exists>m. req_form req = ParseError m)
          \<or> (\<exists>mf f N e. req_form req = Parsed mf \<and> uploadedFile mf = Some f
               \<and> originalFilename f = Some N
               \<and> fs_rename fs (filepath f) (path_join [UPLOAD_DIR dirname, N]) = Inl e))
    \<and> (status r = 400 \<longleftrightarrow> (\<exists>mf. req_form req = Parsed mf \<and> uploadedFile mf = None))
    \<and> (status r = 500 \<longrightarrow>
          json_field ''success'' (body r) = Some (JBool False)
          \<and> (\<exists>m. json_field ''error'' (body r) = Some (JString m)))
    \<and> (status r = 400 \<longrightarrow>
          json_field ''success'' (body r) = Some (JBool False)
          \<and> json_field ''error'' (body r) = None)
    \<and> (status r \<noteq> 500 \<and> status r \<noteq> 400 \<longrightarrow>
          status r = 200
          \<and> json_field ''success'' (body r) = Some (JBool True)
          \<and> (\<exists>mf f N. req_form req = Parsed mf \<and> uploadedFile mf = Some f
               \<and> originalFilename f = Some N
               \<and> json_field ''fileName'' (body r) = Some (JString N)))"
  proof (cases "req_form req")
    case (ParseError m)
    then show ?thesis
      using h by (auto simp: upload_handler_def respond_def header_def cors_def json_field_def)
  next
    case (Parsed mf)
    show ?thesis
    proof (cases "uploadedFile mf")
      case None
      then show ?thesis
        using h Parsed
        by (auto simp: upload_handler_def respond_def header_def cors_def json_field_def)
    next
      case (Some f)
      from h Parsed Some obtain N where N: "originalFilename f = Some N"
        and n1: "nullCheck (filepath f) = None"
        and n2: "nullCheck (path_join [UPLOAD_DIR dirname, N]) = None"
        by (auto simp: upload_handler_def Let_def split: option.splits)
      show ?thesis
      proof (cases "fs_rename fs (filepath f) (path_join [UPLOAD_DIR dirname, N])")
        case (Inl e)
        then show ?thesis
          using h Parsed Some N n1 n2
          by (auto simp: upload_handler_def respond_def header_def cors_def json_field_def)
      next
        case (Inr fs2)
        then show ?thesis
          using h Parsed Some N n1 n2
          by (auto simp: upload_handler_def respond_def header_def cors_def json_field_def)
      qed
    qed
  qed
  from all show "header ''Content-Type'' r = Some ''application/json''"
    by blast
  from all show "status r = 500 \<longleftrightarrow>
          (\<exists>m. req_form req = ParseError m)
          \<or> (\<exists>mf f N e. req_form req = Parsed mf \<and> uploadedFile mf = Some f
               \<and> originalFilename f = Some N
               \<and> fs_rename fs (filepath f) (path_join [UPLOAD_DIR dirname, N]) = Inl e)"
    by blast
  from all show "status r = 400 \<longleftrightarrow> (\<exists>mf. req_form req = Parsed mf \<and> uploadedFile mf = None)"
    by blast
  from all show "status r = 500 \<Longrightarrow>
          json_field ''success'' (body r) = Some (JBool False)
          \<and> (\<exists>m. json_field ''error'' (body r) = Some (JString m))"
    by blast
  from all show "status r = 400 \<Longrightarrow>
          json_field ''success'' (body r) = Some (JBool False)
          \<and> json_field ''error'' (body r) = None"
    by blast
  from all show "status r \<noteq> 500 \<Longrightarrow> status r \<noteq> 400 \<Longrightarrow>
          status r = 200
          \<and> json_field ''success'' (body r) = Some (JBool True)
          \<and> (\<exists>mf f N. req_form req = Parsed mf \<and> uploadedFile mf = Some f
               \<and> originalFilename f = Some N
               \<and> json_field ''fileName'' (body r) = Some (JString N))"
    by blast
qed

text \<open>
  The uploads that are not answered: a file is there, and its name is
  \<^verbatim>\<open>null\<close>, or its staged path or its final path has a NUL character.
\<close>

lemma upload_uncaught:
  assumes "req_url req = ''/upload''" and "req_method req = ''POST''"
  shows "server dirname fs req = Uncaught exn \<longleftrightarrow>
     (\<exists>mf f. req_form req = Parsed mf \<and> uploadedFile mf = Some f
        \<and> (originalFilename f = None \<and> exn = ERR_INVALID_ARG_TYPE
           \<or> (\<exists>N. originalFilename f = Some N \<and> exn = ERR_INVALID_ARG_VALUE
                \<and> (CHR 0x00 \<in> set (filepath f)
                   \<or> CHR 0x00 \<in> set (path_join [UPLOAD_DIR dirname, N])))))"
  using assms
  by (auto simp: upload_route upload_handler_def Let_def nullCheck_def
      split: parsed.splits option.splits sum.splits if_splits)

text \<open>
  The answers to \<^verbatim>\<open>DELETE /delete/{name}\<close>, with \<open>name\<close> the percent-decoded
  final segment, when the path has no NUL character. The source answers 404 when the
  \<^verbatim>\<open>code\<close> of the error of \<^verbatim>\<open>unlink\<close> is \<^verbatim>\<open>ENOENT\<close>, and this
  is how absent is read here: the name, or a directory on the way to it, is missing. A
  name that cannot be reached for another reason (a file on the way to it,
  \<^verbatim>\<open>ENOTDIR\<close>; a name too long, \<^verbatim>\<open>ENAMETOOLONG\<close>) and a name that
  cannot be unlinked (a directory, \<^verbatim>\<open>EISDIR\<close>) are answered with 500 and the
  message of the error. When unlinking succeeds the answer is 200, and no later answer
  to \<^verbatim>\<open>GET /files\<close> on the file system so reached lists the name.
\<close>

lemma delete_answers:
  assumes "startsWith (req_url req) ''/delete/''" and "req_method req = ''DELETE''"
    and "decodeURIComponent (pop (split (CHR ''/'') (req_url req))) = Inr name"
    and "nullCheck (path_join [UPLOAD_DIR dirname, name]) = None"
  shows "fs_unlink fs (path_join [UPLOAD_DIR dirname, name]) = Inl ENOENT \<Longrightarrow>
            server dirname fs req =
              Responded
                (respond cors 404 [(''Content-Type'', ''application/json'')]
                   (Json (JObject [(''success'', JBool False),
                                   (''message'', JString ''File not found.'')])))
                fs"
    and "fs_unlink fs (path_join [UPLOAD_DIR dirname, name]) = Inl e \<Longrightarrow> e \<noteq> ENOENT \<Longrightarrow>
            server dirname fs req =
              Responded
                (respond cors 500 [(''Content-Type'', ''application/json'')]
                   (Json (JObject [(''success'', JBool False),
                                   (''message'',
                                    JString (''Failed to delete file: ''
                                             @ message e ''unlink''
                                                 [path_join [UPLOAD_DIR dirname, name]]))])))
                fs"
    and "fs_unlink fs (path_join [UPLOAD_DIR dirname, name]) = Inr fs' \<Longrightarrow>
            server dirname fs req =
              Responded
                (respond cors 200 [(''Content-Type'', ''application/json'')]
                   (Json (JObject [(''success'', JBool True),
                                   (''message'', JString ''File deleted successfully!'')])))
                fs'"
    and "fs_unlink fs (path_join [UPLOAD_DIR dirname, name]) = Inr fs' \<Longrightarrow>
         req_url req' = ''/files'' \<Longrightarrow> req_method req' = ''GET'' \<Longrightarrow>
         server dirname fs' req' = Responded r' fs'' \<Longrightarrow> name \<notin> set (listed (body r'))"
proof -
  have route: "server dirname fs req = delete_handler dirname cors fs (req_url req)"
    using assms(1,2) by (rule delete_route)
  show "fs_unlink fs (path_join [UPLOAD_DIR dirname, name]) = Inl ENOENT \<Longrightarrow>
            server dirname fs req =
              Responded
                (respond cors 404 [(''Content-Type'', ''application/json'')]
                   (Json (JObject [(''success'', JBool False),
                                   (''message'', JString ''File not found.'')])))
                fs"
    unfolding route using assms(3,4) by (simp add: delete_handler_def Let_def)
  show "fs_unlink fs (path_join [UPLOAD_DIR dirname, name]) = Inl e \<Longrightarrow> e \<noteq> ENOENT \<Longrightarrow>
            server dirname fs req =
              Responded
                (respond cors 500 [(''Content-Type'', ''application/json'')]
                   (Json (JObject [(''success'', JBool False),
                                   (''message'',
                                    JString (''Failed to delete file: ''
                                             @ message e ''unlink''
                                                 [path_join [UPLOAD_DIR dirname, name]]))])))
                fs"
    unfolding route using assms(3,4) by (simp add: delete_handler_def Let_def)
  show "fs_unlink fs (path_join [UPLOAD_DIR dirname, name]) = Inr fs' \<Longrightarrow>
            server dirname fs req =
              Responded
                (respond cors 200 [(''Content-Type'', ''application/json'')]
                   (Json (JObject [(''success'', JBool True),
                                   (''message'', JString ''File deleted successfully!'')])))
                fs'"
    unfolding route using assms(3,4) by (simp add: delete_handler_def Let_def)
  show "name \<notin> set (listed (body r'))"
    if "fs_unlink fs (path_join [UPLOAD_DIR dirname, name]) = Inr fs'"
      and "req_url req' = ''/files''" "req_method req' = ''GET''"
      and "server dirname fs' req' = Responded r' fs''"
  proof -
    from that(1) obtain e where "follow fs' (path_join [UPLOAD_DIR dirname, name]) = Inl e"
      using unlink_gone by blast
    moreover have "listing_handler dirname cors fs' = Responded r' fs''"
      using that(2-4) by (simp add: listing_route)
    ultimately show ?thesis
      by (rule not_listed)
  qed
qed

text \<open>
  The file system has at most one node for a path, every request the listener answers
  leaves it so, and the names in an answer to \<^verbatim>\<open>GET /files\<close> are then pairwise
  different.
\<close>

lemma one_file_per_name:
  assumes "distinct (map fst fs)" and "server dirname fs req = Responded r fs'"
  shows "distinct (map fst fs')"
    and "req_url req = ''/files'' \<Longrightarrow> req_method req = ''GET'' \<Longrightarrow> distinct (listed (body r))"
proof -
  show "distinct (map fst fs')"
    using assms server_distinct by blast
  show "distinct (listed (body r))" if "req_url req = ''/files''" "req_method req = ''GET''"
  proof -
    have "listing_handler dirname cors fs = Responded r fs'"
      using that assms(2) by (simp add: listing_route)
    then show ?thesis
      using assms(1) by (rule listing_distinct)
  qed
qed

text \<open>
  What the paths with a NUL character come to, on a server in \<^verbatim>\<open>/app\<close> and
  whatever the file system: \<^verbatim>\<open>%00\<close> decodes to the NUL character,
  \<^verbatim>\<open>fs.access\<close> and \<^verbatim>\<open>fs.unlink\<close> throw, and no response is sent.
\<close>

lemma nul_segment:
  "decodeURIComponent (pop (split (CHR ''/'') ''/download/%00'')) = Inr [CHR 0x00]"
  "decodeURIComponent (pop (split (CHR ''/'') ''/delete/%00'')) = Inr [CHR 0x00]"
  "nullCheck (path_join [UPLOAD_DIR ''/app'', [CHR 0x00]]) = Some ERR_INVALID_ARG_VALUE"
  by code_simp+

lemma download_nul_uncaught:
  "server ''/app'' fs (request ''GET'' ''/download/%00'') = Uncaught ERR_INVALID_ARG_VALUE"
proof -
  have "startsWith ''/download/%00'' ''/download/''"
    by code_simp
  then have "server ''/app'' fs (request ''GET'' ''/download/%00'') =
      download_handler ''/app'' cors fs ''/download/%00''"
    using download_route [of "request ''GET'' ''/download/%00''"] by (simp add: request_def)
  then show ?thesis
    unfolding download_handler_def nul_segment(1) by (simp add: nul_segment(3))
qed

section \<open>The claims\<close>

text \<open>
  C1. The claim: for every name \<open>N\<close> and all bytes \<open>B\<close>, uploading \<open>B\<close> under
  \<open>N\<close> and then requesting \<^verbatim>\<open>GET /download/N\<close> returns 200 with the body
  \<open>B\<close>. The listener does otherwise for a name with a character above U+00FF. On the
  example deployment the staged bytes 9, 9 are uploaded under the name of the euro sign
  and \<^verbatim>\<open>.txt\<close>, which is free: the upload is answered with 200 and the bytes are
  stored under the name. The download that follows, for the URL the client page builds
  from the name, finds the file, and ends in the \<^verbatim>\<open>ERR_INVALID_CHAR\<close> that
  \<^verbatim>\<open>writeHead\<close> throws for the \<^verbatim>\<open>Content-Disposition\<close>, uncaught: no
  response is sent. (For the names a header value may hold, the round trip is lemma
  \<open>roundtrip\<close>.)
\<close>

theorem roundtrip_header_uncaught:
  "server ''/app'' example_fs (upload_as euro_txt) =
     Responded
       (respond cors 200 [(''Content-Type'', ''application/json'')]
          (Json (JObject [(''success'', JBool True),
                          (''message'', JString ''File uploaded successfully!''),
                          (''fileName'', JString euro_txt)])))
       example_fs_euro
   \<and> fs_readFile example_fs_euro (path_join [UPLOAD_DIR ''/app'', euro_txt]) = Inr [9, 9]
   \<and> ''/download/'' @ encodeURIComponent euro_txt = ''/download/%E2%82%AC.txt''
   \<and> server ''/app'' example_fs_euro (request ''GET'' ''/download/%E2%82%AC.txt'')
       = Uncaught ERR_INVALID_CHAR
   \<and> sent (server ''/app'' example_fs_euro (request ''GET'' ''/download/%E2%82%AC.txt'')) = None"
  by code_simp

text \<open>
  C2. The claim: at most one file is stored under a name, and uploading a file whose
  name exists overwrites the contents, so that a later download returns the new bytes.
  The first half holds (lemmas \<open>one_file_per_name\<close> and \<open>upload_over\<close>); the
  download does not follow for a name with a character above U+00FF. On the example
  deployment a file of the name of the euro sign and \<^verbatim>\<open>.txt\<close> holds the byte
  7, and the staged bytes 9, 9 are uploaded under that name: the upload is answered with
  200, the table has one node less, and the file holds 9, 9. The download that follows
  returns neither the new bytes nor the old: it ends in the
  \<^verbatim>\<open>ERR_INVALID_CHAR\<close> of \<^verbatim>\<open>writeHead\<close>, uncaught.
\<close>

theorem overwrite_header_uncaught:
  "fs_readFile example_fs_euro_stored (path_join [UPLOAD_DIR ''/app'', euro_txt]) = Inr [7]
   \<and> server ''/app'' example_fs_euro_stored (upload_as euro_txt) =
       Responded
         (respond cors 200 [(''Content-Type'', ''application/json'')]
            (Json (JObject [(''success'', JBool True),
                            (''message'', JString ''File uploaded successfully!''),
                            (''fileName'', JString euro_txt)])))
         example_fs_euro
   \<and> Suc (length example_fs_euro) = length example_fs_euro_stored
   \<and> distinct (map fst example_fs_euro)
   \<and> fs_readFile example_fs_euro (path_join [UPLOAD_DIR ''/app'', euro_txt]) = Inr [9, 9]
   \<and> decodeURIComponent (pop (split (CHR ''/'') ''/download/%E2%82%AC.txt'')) = Inr euro_txt
   \<and> server ''/app'' example_fs_euro (request ''GET'' ''/download/%E2%82%AC.txt'')
       = Uncaught ERR_INVALID_CHAR"
  by code_simp

text \<open>
  C3. The claim: every error raised while a request is handled, malformed
  percent-encoding in a \<^verbatim>\<open>/download/\<close> or \<^verbatim>\<open>/delete/\<close> path included, is
  caught and turned into a status and a body. The listener does otherwise: whatever the
  deployment and the file system, \<^verbatim>\<open>GET /download/%\<close> and
  \<^verbatim>\<open>DELETE /delete/%\<close> end in the \<^verbatim>\<open>URIError\<close> that
  \<^verbatim>\<open>decodeURIComponent\<close> throws, uncaught, and no response is sent.
\<close>

theorem malformed_escape_uncaught:
  "server dirname fs (request ''GET'' ''/download/%'') = Uncaught URIError
   \<and> server dirname fs (request ''DELETE'' ''/delete/%'') = Uncaught URIError
   \<and> sent (server dirname fs (request ''GET'' ''/download/%'')) = None"
  by (simp add: server_def request_def startsWith_def download_handler_def delete_handler_def
      decodeURIComponent_def pop_def sent_def)

text \<open>
  C4. The claim: \<^verbatim>\<open>POST /upload\<close> answers 500 exactly when parsing or the move
  fails, 400 exactly when no file stands under \<^verbatim>\<open>myFile\<close>, and 200 with the
  name of the file otherwise. So it is for every upload that is answered (lemma
  \<open>upload_answers\<close>), but not every upload is: for a file whose name has a NUL
  character, parsing succeeded and the file is there, and \<^verbatim>\<open>fs.rename\<close> throws
  \<^verbatim>\<open>ERR_INVALID_ARG_VALUE\<close> in the callback of \<^verbatim>\<open>form.parse\<close>,
  uncaught. On a server in \<^verbatim>\<open>/app\<close>, whatever the file system, the upload of
  the staged file under the name \<^verbatim>\<open>a\<close>, NUL, \<^verbatim>\<open>b\<close> gets no response
  at all.
\<close>

theorem upload_nul_uncaught:
  "server ''/app'' fs (upload_as (''a'' @ [CHR 0x00] @ ''b'')) = Uncaught ERR_INVALID_ARG_VALUE
   \<and> sent (server ''/app'' fs (upload_as (''a'' @ [CHR 0x00] @ ''b''))) = None"
proof -
  have "nullCheck ''/app/uploads/upload_1'' = None"
    by code_simp
  moreover have "nullCheck (path_join [UPLOAD_DIR ''/app'', ''a'' @ [CHR 0x00] @ ''b''])
      = Some ERR_INVALID_ARG_VALUE"
    by code_simp
  ultimately have "upload_handler ''/app'' cors fs
      (Parsed (FileArray [\<lparr>filepath = ''/app/uploads/upload_1'',
                           originalFilename = Some (''a'' @ [CHR 0x00] @ ''b'')\<rparr>]))
      = Uncaught ERR_INVALID_ARG_VALUE"
    unfolding upload_handler_def by simp
  then show ?thesis
    by (simp add: server_def upload_as_def sent_def)
qed

text \<open>
  C5. The claim: every \<^verbatim>\<open>DELETE /delete/{name}\<close> is answered, with 404 when the
  file is absent, with 500 for any other error of the file system, and with 200 on
  success. So it is for every name whose path has no NUL character (lemma
  \<open>delete_answers\<close>). For \<^verbatim>\<open>DELETE /delete/%00\<close> the name is the NUL
  character, \<^verbatim>\<open>fs.unlink\<close> throws \<^verbatim>\<open>ERR_INVALID_ARG_VALUE\<close> in the
  listener, uncaught, and on a server in \<^verbatim>\<open>/app\<close>, whatever the file system,
  no response is sent.
\<close>

theorem delete_nul_uncaught:
  "decodeURIComponent (pop (split (CHR ''/'') ''/delete/%00'')) = Inr [CHR 0x00]
   \<and> server ''/app'' fs (request ''DELETE'' ''/delete/%00'') = Uncaught ERR_INVALID_ARG_VALUE
   \<and> sent (server ''/app'' fs (request ''DELETE'' ''/delete/%00'')) = None"
proof -
  have "startsWith ''/delete/%00'' ''/delete/''"
    by code_simp
  then have "server ''/app'' fs (request ''DELETE'' ''/delete/%00'') =
      delete_handler ''/app'' cors fs ''/delete/%00''"
    using delete_route [of "request ''DELETE'' ''/delete/%00''"] by (simp add: request_def)
  then have "server ''/app'' fs (request ''DELETE'' ''/delete/%00'') = Uncaught ERR_INVALID_ARG_VALUE"
    unfolding delete_handler_def nul_segment(2) by (simp add: nul_segment(3))
  then show ?thesis
    using nul_segment(2) by (simp add: sent_def)
qed

text \<open>
  C6, as amended. For \<^verbatim>\<open>GET /download/{name}\<close>, with \<open>name\<close> the percent-decoded
  final segment, when the path \<^verbatim>\<open>storage/<name>\<close> has no NUL character: when it
  cannot be reached the answer is 404, plain text; and, when \<open>name\<close> has only
  characters a header value may hold (the tab, printable ASCII, U+0080 to U+00FF): when
  it is a regular file the answer is 200 with
  \<^verbatim>\<open>Content-Type: application/octet-stream\<close> and
  \<^verbatim>\<open>Content-Disposition: attachment; filename="{name}"\<close>, and the body is the bytes
  of the file; when it is there and is not a regular file (a directory, as the storage
  directory itself is for the empty name) the answer is 200 with the same headers,
  and the body is the text \<^verbatim>\<open>Error downloading file.\<close> Nothing is said of the
  other requests, which the listener does not answer (\<open>download_nul_uncaught\<close>, and
  C1).
\<close>

theorem download_postcondition:
  assumes "startsWith (req_url req) ''/download/''" and "req_method req = ''GET''"
    and "decodeURIComponent (pop (split (CHR ''/'') (req_url req))) = Inr name"
    and "nullCheck (path_join [UPLOAD_DIR dirname, name]) = None"
  shows "(\<forall>e. follow fs (path_join [UPLOAD_DIR dirname, name]) = Inl e \<longrightarrow>
            server dirname fs req =
              Responded
                (respond cors 404 [(''Content-Type'', ''text/plain'')] (Text ''File not found.''))
                fs)
       \<and> (\<forall>b. \<not> checkInvalidHeaderChar name
              \<and> follow fs (path_join [UPLOAD_DIR dirname, name]) = Inr (RegularFile b) \<longrightarrow>
            server dirname fs req =
              Responded
                (respond cors 200
                   [(''Content-Type'', ''application/octet-stream''),
                    (''Content-Disposition'',
                     ''attachment; filename='' @ [CHR 0x22] @ name @ [CHR 0x22])]
                   (Raw b))
                fs)
       \<and> (\<forall>n. \<not> checkInvalidHeaderChar name
              \<and> follow fs (path_join [UPLOAD_DIR dirname, name]) = Inr n \<and> \<not> isFile n \<longrightarrow>
            server dirname fs req =
              Responded
                (respond cors 200
                   [(''Content-Type'', ''application/octet-stream''),
                    (''Content-Disposition'',
                     ''attachment; filename='' @ [CHR 0x22] @ name @ [CHR 0x22])]
                   (Text ''Error downloading file.''))
                fs)"
proof -
  have route: "server dirname fs req = download_handler dirname cors fs (req_url req)"
    using assms(1,2) by (rule download_route)
  have v: "validateHeaderValue (''attachment; filename='' @ [CHR 0x22] @ name @ [CHR 0x22]) = None"
    if "\<not> checkInvalidHeaderChar name"
    unfolding disposition_valid using that by (simp add: validateHeaderValue_def)
  show ?thesis
    unfolding route download_handler_def assms(3) Let_def using assms(4) v
    by (auto simp: fs_access_def fs_createReadStream_def fs_readFile_def split: node.splits)
qed

text \<open>On the example deployment: a stored file, a missing name and the sub-directory.\<close>

theorem download_postcondition_witness:
  "server ''/app'' example_fs (request ''GET'' ''/download/a.txt'') =
     Responded
       (respond cors 200
          [(''Content-Type'', ''application/octet-stream''),
           (''Content-Disposition'', ''attachment; filename='' @ [CHR 0x22] @ ''a.txt'' @ [CHR 0x22])]
          (Raw [7]))
       example_fs
   \<and> server ''/app'' example_fs (request ''GET'' ''/download/missing.txt'') =
       Responded
         (respond cors 404 [(''Content-Type'', ''text/plain'')] (Text ''File not found.''))
         example_fs
   \<and> server ''/app'' example_fs (request ''GET'' ''/download/sub'') =
       Responded
         (respond cors 200
            [(''Content-Type'', ''application/octet-stream''),
             (''Content-Disposition'', ''attachment; filename='' @ [CHR 0x22] @ ''sub'' @ [CHR 0x22])]
            (Text ''Error downloading file.''))
         example_fs"
proof -
  have s: "startsWith (req_url (request ''GET'' ''/download/a.txt'')) ''/download/''"
    "startsWith (req_url (request ''GET'' ''/download/missing.txt'')) ''/download/''"
    "startsWith (req_url (request ''GET'' ''/download/sub'')) ''/download/''"
    by code_simp+
  have m: "req_method (request ''GET'' u) = ''GET''" for u
    by (simp add: request_def)
  have d: "decodeURIComponent (pop (split (CHR ''/'') (req_url (request ''GET'' ''/download/a.txt''))))
      = Inr ''a.txt''"
    "decodeURIComponent (pop (split (CHR ''/'') (req_url (request ''GET'' ''/download/missing.txt''))))
      = Inr ''missing.txt''"
    "decodeURIComponent (pop (split (CHR ''/'') (req_url (request ''GET'' ''/download/sub''))))
      = Inr ''sub''"
    by code_simp+
  have n: "nullCheck (path_join [UPLOAD_DIR ''/app'', ''a.txt'']) = None"
    "nullCheck (path_join [UPLOAD_DIR ''/app'', ''missing.txt'']) = None"
    "nullCheck (path_join [UPLOAD_DIR ''/app'', ''sub'']) = None"
    by code_simp+
  have h: "\<not> checkInvalidHeaderChar ''a.txt''" "\<not> checkInvalidHeaderChar ''sub''"
    by code_simp+
  have f: "follow example_fs (path_join [UPLOAD_DIR ''/app'', ''a.txt'']) = Inr (RegularFile [7])"
    "follow example_fs (path_join [UPLOAD_DIR ''/app'', ''missing.txt'']) = Inl ENOENT"
    "follow example_fs (path_join [UPLOAD_DIR ''/app'', ''sub'']) = Inr Directory \<and> \<not> isFile Directory"
    by code_simp+
  show ?thesis
    using download_postcondition [OF s(1) m d(1) n(1), of example_fs]
      download_postcondition [OF s(2) m d(2) n(2), of example_fs]
      download_postcondition [OF s(3) m d(3) n(3), of example_fs] f h
    by blast
qed

text \<open>As stated, with the bytes of the file in every 200, C6 fails at
  \<^verbatim>\<open>GET /download/\<close>: the name is empty, \<^verbatim>\<open>storage/\<close> is the storage
  directory and is there, and the 200 carries the text of the stream's error handler.\<close>

theorem download_directory_counterexample:
  "decodeURIComponent (pop (split (CHR ''/'') ''/download/'')) = Inr []
   \<and> fs_access example_fs (path_join [UPLOAD_DIR ''/app'', []]) = None
   \<and> sent (server ''/app'' example_fs (request ''GET'' ''/download/'')) =
       Some (respond cors 200
               [(''Content-Type'', ''application/octet-stream''),
                (''Content-Disposition'', ''attachment; filename='' @ [CHR 0x22, CHR 0x22])]
               (Text ''Error downloading file.''))"
  by code_simp

text \<open>
  C7. When the storage directory can be read, \<^verbatim>\<open>GET /files\<close> is answered with 200
  and \<^verbatim>\<open>success: true\<close>, the file system is left as it was, and the names listed
  are exactly the entries of the storage directory, in their order, that
  \<^verbatim>\<open>statSync\<close> reports as regular files: an entry whose inspection fails and an
  entry that is a directory or a special file are left out, and neither aborts the listing.
\<close>

theorem listing_postcondition:
  assumes "req_url req = ''/files''" and "req_method req = ''GET''"
    and "fs_readdir fs (UPLOAD_DIR dirname) = Inr es"
  shows "\<exists>r. server dirname fs req = Responded r fs
       \<and> status r = 200
       \<and> json_field ''success'' (body r) = Some (JBool True)
       \<and> listed (body r) =
           filter (\<lambda>e. \<exists>b. fs_statSync fs (path_join [UPLOAD_DIR dirname, e]) = Inr (RegularFile b)) es
       \<and> (\<forall>e err. fs_statSync fs (path_join [UPLOAD_DIR dirname, e]) = Inl err
            \<longrightarrow> e \<notin> set (listed (body r)))
       \<and> (\<forall>e n. fs_statSync fs (path_join [UPLOAD_DIR dirname, e]) = Inr n \<and> \<not> isFile n
            \<longrightarrow> e \<notin> set (listed (body r)))"
proof -
  have same: "(case x of Inl e \<Rightarrow> False | Inr stats \<Rightarrow> isFile stats) = (\<exists>b. x = Inr (RegularFile b))"
    for x :: "errno + node"
    by (cases x) (auto elim: isFile.elims)
  have names: "fileNames dirname fs es =
      filter (\<lambda>e. \<exists>b. fs_statSync fs (path_join [UPLOAD_DIR dirname, e]) = Inr (RegularFile b)) es"
    by (simp add: fileNames_def same)
  have "server dirname fs req = listing_handler dirname cors fs"
    using assms(1,2) by (rule listing_route)
  then show ?thesis
    using assms(3)
    by (auto simp: listing_handler_def respond_def json_field_def names listed_files)
qed

text \<open>On the example deployment the storage directory has four entries; the
  sub-directory and the broken link, which cannot be inspected, are not listed.\<close>

theorem listing_postcondition_witness:
  "\<exists>r. server ''/app'' example_fs (request ''GET'' ''/files'') = Responded r example_fs
     \<and> status r = 200
     \<and> listed (body r) = [''a.txt'', ''upload_1'']
     \<and> ''lnk'' \<notin> set (listed (body r))
     \<and> ''sub'' \<notin> set (listed (body r))"
proof -
  have u: "req_url (request ''GET'' ''/files'') = ''/files''"
    and m: "req_method (request ''GET'' ''/files'') = ''GET''"
    by (simp_all add: request_def)
  have es: "fs_readdir example_fs (UPLOAD_DIR ''/app'') = Inr [''a.txt'', ''lnk'', ''sub'', ''upload_1'']"
    by code_simp
  have st: "fs_statSync example_fs (path_join [UPLOAD_DIR ''/app'', ''a.txt'']) = Inr (RegularFile [7])"
    "fs_statSync example_fs (path_join [UPLOAD_DIR ''/app'', ''sub'']) = Inr Directory"
    "fs_statSync example_fs (path_join [UPLOAD_DIR ''/app'', ''lnk'']) = Inl ENOENT"
    "fs_statSync example_fs (path_join [UPLOAD_DIR ''/app'', ''upload_1'']) = Inr (RegularFile [9, 9])"
    by code_simp+
  from listing_postcondition [OF u m es]
  obtain r where r: "server ''/app'' example_fs (request ''GET'' ''/files'') = Responded r example_fs"
    and ok: "status r = 200"
    and l: "listed (body r) =
      filter (\<lambda>e. \<exists>b. fs_statSync example_fs (path_join [UPLOAD_DIR ''/app'', e]) = Inr (RegularFile b))
        [''a.txt'', ''lnk'', ''sub'', ''upload_1'']"
    and failing: "\<forall>e err. fs_statSync example_fs (path_join [UPLOAD_DIR ''/app'', e]) = Inl err
            \<longrightarrow> e \<notin> set (listed (body r))"
    and other: "\<forall>e n. fs_statSync example_fs (path_join [UPLOAD_DIR ''/app'', e]) = Inr n \<and> \<not> isFile n
            \<longrightarrow> e \<notin> set (listed (body r))"
    by blast
  have "listed (body r) = [''a.txt'', ''upload_1'']"
    unfolding l by (simp add: st)
  moreover have "''lnk'' \<notin> set (listed (body r))"
    using failing st(3) by blast
  moreover have "''sub'' \<notin> set (listed (body r))"
    using other st(2) by (metis isFile.simps(2))
  ultimately show ?thesis
    using r ok by blast
qed

text \<open>
  C8, as amended. A static asset is served for every request, of any method but
  OPTIONS, that matches none of the four routes. The path of the request is joined to
  the public directory with \<^verbatim>\<open>path.join\<close>, which resolves its
  \<^verbatim>\<open>..\<close> segments and so can lead out of that directory,
  \<^verbatim>\<open>/\<close> standing for \<^verbatim>\<open>/client.html\<close>. When the file can
  be read the answer is 200 with its bytes, and its content type is the entry of the
  table for the lower-cased extension of the path, \<^verbatim>\<open>application/octet-stream\<close>
  when the table has none; when the file is absent the answer is 404 with an HTML body;
  any other failure is a 500 without a content type.
\<close>

theorem static_fallback:
  assumes "req_method req \<noteq> ''OPTIONS''"
    and "\<not> (req_url req = ''/upload'' \<and> req_method req = ''POST'')"
    and "\<not> (req_url req = ''/files'' \<and> req_method req = ''GET'')"
    and "\<not> (startsWith (req_url req) ''/download/'' \<and> req_method req = ''GET'')"
    and "\<not> (startsWith (req_url req) ''/delete/'' \<and> req_method req = ''DELETE'')"
    and "filePath =
           path_join [PUBLIC_DIR dirname, if req_url req = ''/'' then ''/client.html'' else req_url req]"
  shows "\<exists>r. server dirname fs req = Responded r fs
       \<and> (\<forall>content. fs_readFile fs filePath = Inr content \<longrightarrow>
            status r = 200 \<and> body r = Raw content
            \<and> header ''Content-Type'' r =
                Some (case map_of mimeTypes (toLowerCase (extname filePath)) of
                        Some t \<Rightarrow> t
                      | None \<Rightarrow> ''application/octet-stream''))
       \<and> (fs_readFile fs filePath = Inl ENOENT \<longrightarrow>
            status r = 404 \<and> header ''Content-Type'' r = Some ''text/html''
            \<and> body r = Text ''<h1>404 Not Found</h1><p>The requested file could not be found.</p>'')
       \<and> (\<forall>e. fs_readFile fs filePath = Inl e \<and> e \<noteq> ENOENT \<longrightarrow>
            status r = 500 \<and> header ''Content-Type'' r = None
            \<and> body r = Text (''<h1>500 Internal Server Error: '' @ code e @ ''</h1>''))"
proof -
  have route: "server dirname fs req = static_handler dirname cors fs (req_url req)"
    using assms(1-5) by (auto simp: server_def)
  have p: "static_path dirname (req_url req) = filePath"
    by (simp add: static_path_def assms(6))
  show ?thesis
    unfolding route
    by (cases "fs_readFile fs filePath")
      (simp_all add: static_handler_def p respond_def header_def cors_def contentType_def)
qed

text \<open>On the example deployment: the client page for \<^verbatim>\<open>GET /\<close>, as HTML.\<close>

theorem static_fallback_witness:
  "\<exists>r. server ''/app'' example_fs (request ''GET'' ''/'') = Responded r example_fs
     \<and> status r = 200 \<and> body r = Raw [60]
     \<and> header ''Content-Type'' r = Some ''text/html''"
proof -
  have h: "req_method (request ''GET'' ''/'') \<noteq> ''OPTIONS''"
    "\<not> (req_url (request ''GET'' ''/'') = ''/upload'' \<and> req_method (request ''GET'' ''/'') = ''POST'')"
    "\<not> (req_url (request ''GET'' ''/'') = ''/files'' \<and> req_method (request ''GET'' ''/'') = ''GET'')"
    "\<not> (startsWith (req_url (request ''GET'' ''/'')) ''/download/''
        \<and> req_method (request ''GET'' ''/'') = ''GET'')"
    "\<not> (startsWith (req_url (request ''GET'' ''/'')) ''/delete/''
        \<and> req_method (request ''GET'' ''/'') = ''DELETE'')"
    by code_simp+
  have p: "''/app/public/client.html'' =
      path_join [PUBLIC_DIR ''/app'',
        if req_url (request ''GET'' ''/'') = ''/'' then ''/client.html'' else req_url (request ''GET'' ''/'')]"
    by code_simp
  have c: "fs_readFile example_fs ''/app/public/client.html'' = Inr [60]"
    by code_simp
  have t: "(case map_of mimeTypes (toLowerCase (extname ''/app/public/client.html'')) of
              Some t \<Rightarrow> t
            | None \<Rightarrow> ''application/octet-stream'') = ''text/html''"
    by code_simp
  show ?thesis
    using static_fallback [OF h p, of example_fs] c t by metis
qed

text \<open>As stated, with a static asset served only for GET and resolved under the
  public directory, C8 fails at \<^verbatim>\<open>POST /\<close>, for which the client page is
  served, and at \<^verbatim>\<open>GET /../server.js\<close>, for which the file served is
  \<^verbatim>\<open>/app/server.js\<close>, beside the public directory.\<close>

theorem static_post_counterexample:
  "sent (server ''/app'' example_fs (request ''POST'' ''/''))
     = Some (respond cors 200 [(''Content-Type'', ''text/html'')] (Raw [60]))
   \<and> path_join [PUBLIC_DIR ''/app'', ''/../server.js''] = ''/app/server.js''
   \<and> sent (server ''/app'' example_fs (request ''GET'' ''/../server.js''))
     = Some (respond cors 200 [(''Content-Type'', ''application/javascript'')] (Raw [1, 2, 3]))"
  by code_simp

text \<open>
  C9, as amended. Every response of the current listener carries
  \<^verbatim>\<open>Access-Control-Allow-Origin: *\<close>, \<^verbatim>\<open>Access-Control-Allow-Methods\<close>
  listing GET, POST, DELETE and OPTIONS, and \<^verbatim>\<open>Access-Control-Allow-Headers\<close>
  listing Content-Type and X-Requested-With, whatever the request and its outcome. Every
  response of the older listener carries the same origin and headers lines, and a methods
  line that lists GET, POST and OPTIONS only.
\<close>

theorem cors_headers:
  "(server dirname fs req = Responded r fs' \<longrightarrow>
      header ''Access-Control-Allow-Origin'' r = Some ''*''
      \<and> header ''Access-Control-Allow-Methods'' r = Some ''GET, POST, DELETE, OPTIONS''
      \<and> header ''Access-Control-Allow-Headers'' r = Some ''Content-Type, X-Requested-With'')
   \<and> (server_v1 dirname fs req = Responded r1 fs1 \<longrightarrow>
      header ''Access-Control-Allow-Origin'' r1 = Some ''*''
      \<and> header ''Access-Control-Allow-Methods'' r1 = Some ''GET, POST, OPTIONS''
      \<and> header ''Access-Control-Allow-Headers'' r1 = Some ''Content-Type, X-Requested-With'')"
proof (intro conjI impI)
  assume "server dirname fs req = Responded r fs'"
  then obtain hdrs where h: "headers r = cors @ hdrs"
    using server_headers by blast
  show "header ''Access-Control-Allow-Origin'' r = Some ''*''"
    by (rule header_of_set [OF h]) (simp add: cors_def)
  show "header ''Access-Control-Allow-Methods'' r = Some ''GET, POST, DELETE, OPTIONS''"
    by (rule header_of_set [OF h]) (simp add: cors_def)
  show "header ''Access-Control-Allow-Headers'' r = Some ''Content-Type, X-Requested-With''"
    by (rule header_of_set [OF h]) (simp add: cors_def)
next
  assume "server_v1 dirname fs req = Responded r1 fs1"
  then obtain hdrs where h: "headers r1 = cors_v1 @ hdrs"
    using server_v1_headers by blast
  show "header ''Access-Control-Allow-Origin'' r1 = Some ''*''"
    by (rule header_of_set [OF h]) (simp add: cors_v1_def)
  show "header ''Access-Control-Allow-Methods'' r1 = Some ''GET, POST, OPTIONS''"
    by (rule header_of_set [OF h]) (simp add: cors_v1_def)
  show "header ''Access-Control-Allow-Headers'' r1 = Some ''Content-Type, X-Requested-With''"
    by (rule header_of_set [OF h]) (simp add: cors_v1_def)
qed

text \<open>The two listeners answering a request for a missing file on the example deployment.\<close>

theorem cors_headers_witness:
  "header ''Access-Control-Allow-Origin''
     (respond cors 404 [(''Content-Type'', ''text/plain'')] (Text ''File not found.'')) = Some ''*''
   \<and> header ''Access-Control-Allow-Methods''
       (respond cors 404 [(''Content-Type'', ''text/plain'')] (Text ''File not found.''))
     = Some ''GET, POST, DELETE, OPTIONS''
   \<and> header ''Access-Control-Allow-Headers''
       (respond cors 404 [(''Content-Type'', ''text/plain'')] (Text ''File not found.''))
     = Some ''Content-Type, X-Requested-With''
   \<and> header ''Access-Control-Allow-Methods''
       (respond cors_v1 404 [(''Content-Type'', ''text/plain'')] (Text ''File not found.''))
     = Some ''GET, POST, OPTIONS''"
proof -
  have new: "server ''/app'' example_fs (request ''GET'' ''/download/missing.txt'') =
      Responded (respond cors 404 [(''Content-Type'', ''text/plain'')] (Text ''File not found.''))
        example_fs"
    by code_simp
  have old: "server_v1 ''/app'' example_fs (request ''GET'' ''/download/missing.txt'') =
      Responded (respond cors_v1 404 [(''Content-Type'', ''text/plain'')] (Text ''File not found.''))
        example_fs"
    by code_simp
  show ?thesis
    using cors_headers [of "''/app''" example_fs "request ''GET'' ''/download/missing.txt''"
        "respond cors 404 [(''Content-Type'', ''text/plain'')] (Text ''File not found.'')"
        example_fs
        "respond cors_v1 404 [(''Content-Type'', ''text/plain'')] (Text ''File not found.'')"
        example_fs]
      new old
    by blast
qed

text \<open>As stated, with DELETE in every methods line, C9 fails on the older listener: its
  answer to \<^verbatim>\<open>GET /files\<close> lists GET, POST and OPTIONS.\<close>

theorem cors_v1_counterexample:
  "map_option (header ''Access-Control-Allow-Methods'')
     (sent (server_v1 ''/app'' example_fs (request ''GET'' ''/files'')))
   = Some (Some ''GET, POST, OPTIONS'')"
  by code_simp

text \<open>
  C10. The download and delete handlers take the percent-decoded final segment of the
  URL and join it to the storage directory as it is. On a server in \<^verbatim>\<open>/app\<close> the
  final segment \<^verbatim>\<open>..%2Fserver.js\<close> decodes to \<^verbatim>\<open>../server.js\<close> and joins to
  \<^verbatim>\<open>/app/server.js\<close>, which is not below \<^verbatim>\<open>/app/uploads\<close>; whatever regular
  file is there, \<^verbatim>\<open>GET /download/..%2Fserver.js\<close> answers with its bytes and
  \<^verbatim>\<open>DELETE /delete/..%2Fserver.js\<close> unlinks it.
\<close>

theorem path_traversal:
  assumes "follow fs ''/app/server.js'' = Inr (RegularFile b)"
  shows "decodeURIComponent (pop (split (CHR ''/'') ''/download/..%2Fserver.js'')) = Inr ''../server.js''
       \<and> decodeURIComponent (pop (split (CHR ''/'') ''/delete/..%2Fserver.js'')) = Inr ''../server.js''
       \<and> path_join [UPLOAD_DIR ''/app'', ''../server.js''] = ''/app/server.js''
       \<and> \<not> prefix (components (UPLOAD_DIR ''/app'')) (components ''/app/server.js'')
       \<and> server ''/app'' fs (request ''GET'' ''/download/..%2Fserver.js'') =
           Responded
             (respond cors 200
                [(''Content-Type'', ''application/octet-stream''),
                 (''Content-Disposition'',
                  ''attachment; filename='' @ [CHR 0x22] @ ''../server.js'' @ [CHR 0x22])]
                (Raw b))
             fs
       \<and> server ''/app'' fs (request ''DELETE'' ''/delete/..%2Fserver.js'') =
           Responded
             (respond cors 200 [(''Content-Type'', ''application/json'')]
                (Json (JObject [(''success'', JBool True),
                                (''message'', JString ''File deleted successfully!'')])))
             (filter (\<lambda>(q, m). q \<noteq> [''app'', ''server.js'']) fs)"
proof -
  have d1: "decodeURIComponent (pop (split (CHR ''/'') ''/download/..%2Fserver.js'')) = Inr ''../server.js''"
    by code_simp
  have d2: "decodeURIComponent (pop (split (CHR ''/'') ''/delete/..%2Fserver.js'')) = Inr ''../server.js''"
    by code_simp
  have j: "path_join [UPLOAD_DIR ''/app'', ''../server.js''] = ''/app/server.js''"
    by code_simp
  have outside: "\<not> prefix (components (UPLOAD_DIR ''/app'')) (components ''/app/server.js'')"
    by code_simp
  have c: "components ''/app/server.js'' = [''app'', ''server.js'']"
    by code_simp
  have nul: "nullCheck ''/app/server.js'' = None"
    by code_simp
  have ok: "validateHeaderValue (''attachment; filename='' @ [CHR 0x22] @ ''../server.js'' @ [CHR 0x22])
      = None"
    by code_simp
  have s1: "startsWith ''/download/..%2Fserver.js'' ''/download/''"
    by code_simp
  have s2: "startsWith ''/delete/..%2Fserver.js'' ''/delete/''"
    by code_simp
  have get: "server ''/app'' fs (request ''GET'' ''/download/..%2Fserver.js'') =
      download_handler ''/app'' cors fs ''/download/..%2Fserver.js''"
    using download_route [of "request ''GET'' ''/download/..%2Fserver.js''"] s1
    by (simp add: request_def)
  have del: "server ''/app'' fs (request ''DELETE'' ''/delete/..%2Fserver.js'') =
      delete_handler ''/app'' cors fs ''/delete/..%2Fserver.js''"
    using delete_route [of "request ''DELETE'' ''/delete/..%2Fserver.js''"] s2
    by (simp add: request_def)
  have rd: "server ''/app'' fs (request ''GET'' ''/download/..%2Fserver.js'') =
           Responded
             (respond cors 200
                [(''Content-Type'', ''application/octet-stream''),
                 (''Content-Disposition'',
                  ''attachment; filename='' @ [CHR 0x22] @ ''../server.js'' @ [CHR 0x22])]
                (Raw b))
             fs"
    unfolding get download_handler_def d1 sum.case Let_def j nul option.case ok using assms
    by (simp add: fs_access_def fs_createReadStream_def fs_readFile_def)
  have ul: "fs_unlink fs ''/app/server.js'' = Inr (filter (\<lambda>(q, m). q \<noteq> [''app'', ''server.js'']) fs)"
    using follow_regular [OF assms] by (simp add: fs_unlink_def c)
  have dl: "server ''/app'' fs (request ''DELETE'' ''/delete/..%2Fserver.js'') =
           Responded
             (respond cors 200 [(''Content-Type'', ''application/json'')]
                (Json (JObject [(''success'', JBool True),
                                (''message'', JString ''File deleted successfully!'')])))
             (filter (\<lambda>(q, m). q \<noteq> [''app'', ''server.js'']) fs)"
    unfolding del delete_handler_def d2 by (simp add: j nul ul)
  show ?thesis
    using d1 d2 j outside rd dl by blast
qed

text \<open>On the example deployment the file outside the storage directory is the server's
  own source, \<^verbatim>\<open>/app/server.js\<close>.\<close>

theorem path_traversal_witness:
  "server ''/app'' example_fs (request ''GET'' ''/download/..%2Fserver.js'') =
     Responded
       (respond cors 200
          [(''Content-Type'', ''application/octet-stream''),
           (''Content-Disposition'',
            ''attachment; filename='' @ [CHR 0x22] @ ''../server.js'' @ [CHR 0x22])]
          (Raw [1, 2, 3]))
       example_fs
   \<and> server ''/app'' example_fs (request ''DELETE'' ''/delete/..%2Fserver.js'') =
       Responded
         (respond cors 200 [(''Content-Type'', ''application/json'')]
            (Json (JObject [(''success'', JBool True),
                            (''message'', JString ''File deleted successfully!'')])))
         (filter (\<lambda>(q, m). q \<noteq> [''app'', ''server.js'']) example_fs)"
proof -
  have "follow example_fs ''/app/server.js'' = Inr (RegularFile [1, 2, 3])"
    by code_simp
  from path_traversal [OF this] show ?thesis
    by blast
qed

end
